theory Spec2Isabelle
  imports Complex_Main "HOL-Library.Word" "HOL-Library.Multiset" "HOL-Library.Log_Nat"
begin

section \<open>Errors and loops\<close>

text \<open>
  The exceptions the modelled code can raise. \<open>Error msg\<close> is a JavaScript
  \<^verbatim>\<open>throw new Error(msg)\<close> of the repository; \<open>DOMException name\<close> is an exception
  of the Web Audio platform (\<^verbatim>\<open>createBuffer\<close>, \<^verbatim>\<open>getChannelData\<close>); \<open>RangeError\<close> is
  the exception of a \<^verbatim>\<open>DataView\<close> access outside its buffer, \<open>TypeError\<close> that of a
  property read on \<^verbatim>\<open>undefined\<close>.
\<close>

datatype error = Error string | DOMException string | RangeError | TypeError

text \<open>
  A counted loop \<^verbatim>\<open>for (let i = 0; i < n; i++) body\<close> and a \<^verbatim>\<open>for (const x of xs)\<close> loop
  whose body may throw: \<open>forEach [0..<n] body s\<close>, stopping at the first exception.
\<close>

primrec forEach :: "'i list \<Rightarrow> ('i \<Rightarrow> 's \<Rightarrow> error + 's) \<Rightarrow> 's \<Rightarrow> error + 's" where
  "forEach [] body s = Inr s"
| "forEach (x # xs) body s =
     (case body x s of Inl e \<Rightarrow> Inl e | Inr s' \<Rightarrow> forEach xs body s')"

section \<open>JavaScript numbers\<close>

text \<open>
  A JavaScript number is an IEEE 754 double, and every arithmetic operation returns the
  double nearest to the exact result. The model's numbers are reals, and \<open>double x\<close> is
  the double nearest to the real \<open>x\<close>: with \<open>2^e \<le> \<bar>x\<bar> < 2^(e+1)\<close> (\<open>e = binade x\<close>), \<open>x\<close> is
  rounded to a multiple of \<open>2^(e - 52)\<close>, so to 53 significant bits; below \<open>2^-1022\<close> to a
  multiple of \<open>2^-1074\<close>; a tie goes to the even multiple. The times and sample rates that
  the code multiplies, divides or adds and then turns into a frame index with
  \<^verbatim>\<open>Math.floor\<close> are rounded with \<open>double\<close> after each operation. Overflow to
  \<^verbatim>\<open>Infinity\<close> and \<^verbatim>\<open>NaN\<close> are outside the model, and sample values are exact reals: the
  rounding of a sample product and of a \<^verbatim>\<open>Float32Array\<close> store is outside the model.
\<close>

definition pow2 :: "int \<Rightarrow> real" where
  "pow2 k = (if 0 \<le> k then 2 ^ nat k else 1 / 2 ^ nat (- k))"

text \<open>\<open>bitlen n\<close> is the number of binary digits of \<open>n\<close>.\<close>

definition binade :: "real \<Rightarrow> int" where
  "binade x = (if 1 \<le> \<bar>x\<bar> then bitlen \<lfloor>\<bar>x\<bar>\<rfloor> - 1 else - bitlen (\<lceil>1 / \<bar>x\<bar>\<rceil> - 1))"

definition roundTiesToEven :: "real \<Rightarrow> int" where
  "roundTiesToEven y =
     (let f = \<lfloor>y\<rfloor>; d = y - of_int f
      in if d < 1 / 2 then f else if 1 / 2 < d then f + 1 else if even f then f else f + 1)"

definition double :: "real \<Rightarrow> real" where
  "double x =
     (if x = 0 then 0
      else let ulp = pow2 (max (binade x) (- 1022) - 52)
           in of_int (roundTiesToEven (x / ulp)) * ulp)"

section \<open>PCM buffers (Web Audio \<^verbatim>\<open>AudioBuffer\<close>) and typed arrays\<close>

text \<open>The field \<open>blength\<close> is the attribute \<^verbatim>\<open>AudioBuffer.length\<close>, in sample-frames.\<close>

record AudioBuffer =
  numberOfChannels :: nat
  blength :: nat
  sampleRate :: real
  channelData :: "real list list"

text \<open>The platform's invariant of every \<^verbatim>\<open>AudioBuffer\<close>: at least one channel, at least
  one sample-frame, a positive sample rate, and every channel array holds \<open>blength\<close>
  samples. Under it a loop that runs up to the buffer's length reads a channel array in
  range, which is how \<open>changeVolume\<close> and \<open>normalizeAudio\<close> read it (\<open>data ! i\<close>); where
  the code can read outside an array the model uses \<open>f32_get\<close>.\<close>

definition wf_buffer :: "AudioBuffer \<Rightarrow> bool" where
  "wf_buffer b \<longleftrightarrow>
     0 < numberOfChannels b \<and> 0 < blength b \<and> 0 < sampleRate b \<and>
     length (channelData b) = numberOfChannels b \<and>
     list_all (\<lambda>ch. length ch = blength b) (channelData b)"

text \<open>The attribute \<^verbatim>\<open>AudioBuffer.duration\<close>, in seconds: the platform divides the
  length by the sample rate, in doubles.\<close>

definition buffer_duration :: "AudioBuffer \<Rightarrow> real" where
  "buffer_duration b = double (real (blength b) / sampleRate b)"

text \<open>
  \<^verbatim>\<open>BaseAudioContext.createBuffer(numberOfChannels, length, sampleRate)\<close> is platform
  code: it returns a buffer of silence, and raises \<^verbatim>\<open>NotSupportedError\<close> when an argument
  is zero or negative (the implementation-defined upper limits on channels, frames and
  rate are not modelled).
\<close>

definition createBuffer :: "nat \<Rightarrow> int \<Rightarrow> real \<Rightarrow> error + AudioBuffer" where
  "createBuffer channels len rate =
     (if channels = 0 \<or> len \<le> 0 \<or> rate \<le> 0 then Inl (DOMException ''NotSupportedError'')
      else Inr \<lparr>numberOfChannels = channels, blength = nat len, sampleRate = rate,
                channelData = replicate channels (replicate (nat len) 0)\<rparr>)"

definition getChannelData :: "AudioBuffer \<Rightarrow> int \<Rightarrow> error + real list" where
  "getChannelData b channel =
     (if 0 \<le> channel \<and> channel < int (numberOfChannels b)
      then Inr (channelData b ! nat channel)
      else Inl (DOMException ''IndexSizeError''))"

text \<open>\<^verbatim>\<open>getChannelData\<close> returns a view of the buffer: a write to the view is a write to
  the buffer's channel.\<close>

definition setChannelData :: "AudioBuffer \<Rightarrow> nat \<Rightarrow> real list \<Rightarrow> AudioBuffer" where
  "setChannelData b channel arr = b\<lparr>channelData := (channelData b)[channel := arr]\<rparr>"

text \<open>A typed array read \<^verbatim>\<open>a[i]\<close> is \<^verbatim>\<open>undefined\<close> (here \<open>None\<close>) outside the array, and
  a write \<^verbatim>\<open>a[i] = v\<close> outside the array is ignored.\<close>

definition f32_get :: "real list \<Rightarrow> int \<Rightarrow> real option" where
  "f32_get a i = (if 0 \<le> i \<and> i < int (length a) then Some (a ! nat i) else None)"

definition f32_set :: "real list \<Rightarrow> int \<Rightarrow> real \<Rightarrow> real list" where
  "f32_set a i v = (if 0 \<le> i \<and> i < int (length a) then a[nat i := v] else a)"

text \<open>\<^verbatim>\<open>x || 0\<close>: \<^verbatim>\<open>undefined\<close> and \<open>0\<close> are falsy.\<close>

definition or_zero :: "real option \<Rightarrow> real" where
  "or_zero x = (case x of None \<Rightarrow> 0 | Some v \<Rightarrow> if v = 0 then 0 else v)"

section \<open>The audio processor\<close>

text \<open>The processor holds an \<^verbatim>\<open>AudioContext\<close>, or \<^verbatim>\<open>null\<close> where the browser has none; of the
  context only its \<^verbatim>\<open>state\<close> matters to the modelled code.\<close>

datatype AudioContextState = Suspended | Running | Closed

record AudioProcessor =
  audioContext :: "AudioContextState option"

subsection \<open>\<^verbatim>\<open>changeVolume\<close>\<close>

definition changeVolume_channel :: "AudioBuffer \<Rightarrow> real \<Rightarrow> nat \<Rightarrow> AudioBuffer \<Rightarrow> error + AudioBuffer" where
  "changeVolume_channel audioBuffer volumeMultiplier channel processedBuffer =
     (case getChannelData audioBuffer (int channel) of Inl e \<Rightarrow> Inl e | Inr originalData \<Rightarrow>
      case getChannelData processedBuffer (int channel) of Inl e \<Rightarrow> Inl e | Inr processedData \<Rightarrow>
        Inr (setChannelData processedBuffer channel
          (fold (\<lambda>i data. f32_set data (int i) (originalData ! i * volumeMultiplier))
             [0..<blength audioBuffer] processedData)))"

definition changeVolume :: "AudioProcessor \<Rightarrow> AudioBuffer \<Rightarrow> real \<Rightarrow> error + AudioBuffer" where
  "changeVolume this audioBuffer volumeMultiplier =
     (if audioContext this = None then Inl (Error ''Audio context not initialized'')
      else case createBuffer (numberOfChannels audioBuffer) (int (blength audioBuffer))
                  (sampleRate audioBuffer) of
        Inl e \<Rightarrow> Inl e
      | Inr processedBuffer \<Rightarrow>
          forEach [0..<numberOfChannels audioBuffer]
            (changeVolume_channel audioBuffer volumeMultiplier) processedBuffer)"


subsection \<open>\<^verbatim>\<open>normalizeAudio\<close>\<close>

definition normalizeAudio_channel :: "AudioBuffer \<Rightarrow> nat \<Rightarrow> real \<Rightarrow> error + real" where
  "normalizeAudio_channel audioBuffer channel peak =
     (case getChannelData audioBuffer (int channel) of Inl e \<Rightarrow> Inl e | Inr data \<Rightarrow>
        Inr (fold (\<lambda>i peak. max peak \<bar>data ! i\<bar>) [0..<length data] peak))"

definition normalizeAudio :: "AudioProcessor \<Rightarrow> AudioBuffer \<Rightarrow> error + AudioBuffer" where
  "normalizeAudio this audioBuffer =
     (if audioContext this = None then Inl (Error ''Audio context not initialized'')
      else case forEach [0..<numberOfChannels audioBuffer] (normalizeAudio_channel audioBuffer) 0 of
        Inl e \<Rightarrow> Inl e
      | Inr peak \<Rightarrow>
          if peak = 0 then Inr audioBuffer
          else let normalizationGain = (95 / 100) / peak
               in changeVolume this audioBuffer normalizationGain)"

subsection \<open>\<^verbatim>\<open>trimAudio\<close>\<close>

definition trimAudio_channel ::
  "AudioBuffer \<Rightarrow> int \<Rightarrow> int \<Rightarrow> nat \<Rightarrow> AudioBuffer \<Rightarrow> error + AudioBuffer" where
  "trimAudio_channel audioBuffer startSample len channel trimmedBuffer =
     (case getChannelData audioBuffer (int channel) of Inl e \<Rightarrow> Inl e | Inr originalData \<Rightarrow>
      case getChannelData trimmedBuffer (int channel) of Inl e \<Rightarrow> Inl e | Inr trimmedData \<Rightarrow>
        Inr (setChannelData trimmedBuffer channel
          (fold (\<lambda>i data. f32_set data (int i) (or_zero (f32_get originalData (startSample + int i))))
             [0..<nat len] trimmedData)))"

definition trimAudio :: "AudioProcessor \<Rightarrow> AudioBuffer \<Rightarrow> real \<Rightarrow> real \<Rightarrow> error + AudioBuffer" where
  "trimAudio this audioBuffer startTime endTime =
     (if audioContext this = None then Inl (Error ''Audio context not initialized'')
      else
        let rate = sampleRate audioBuffer;
            startSample = \<lfloor>double (startTime * rate)\<rfloor>;
            endSample = \<lfloor>double (endTime * rate)\<rfloor>;
            len = endSample - startSample
        in case createBuffer (numberOfChannels audioBuffer) len rate of
             Inl e \<Rightarrow> Inl e
           | Inr trimmedBuffer \<Rightarrow>
               forEach [0..<numberOfChannels audioBuffer]
                 (trimAudio_channel audioBuffer startSample len) trimmedBuffer)"

subsection \<open>\<^verbatim>\<open>mixAudioBuffers\<close>\<close>

text \<open>An element \<^verbatim>\<open>{ buffer, startTime, volume }\<close> of the list to mix.\<close>

type_synonym MixEntry = "AudioBuffer \<times> real \<times> real"

text \<open>\<^verbatim>\<open>a[k] += v\<close> on a typed array: outside the array the read is \<^verbatim>\<open>undefined\<close> and the
  write is ignored.\<close>

definition f32_add :: "real list \<Rightarrow> int \<Rightarrow> real \<Rightarrow> real list" where
  "f32_add a k v = (case f32_get a k of None \<Rightarrow> a | Some x \<Rightarrow> f32_set a k (x + v))"

text \<open>The innermost loop
  \<^verbatim>\<open>for (let i = 0; i < sourceData.length && startSample + i < mixedData.length; i++)\<close>.\<close>

function mix_loop :: "real list \<Rightarrow> real \<Rightarrow> int \<Rightarrow> nat \<Rightarrow> real list \<Rightarrow> real list" where
  "mix_loop sourceData volume startSample i mixedData =
     (if i < length sourceData \<and> startSample + int i < int (length mixedData)
      then mix_loop sourceData volume startSample (Suc i)
             (f32_add mixedData (startSample + int i) (sourceData ! i * volume))
      else mixedData)"
  by pat_completeness auto
termination
  by (relation "measure (\<lambda>(sourceData, volume, startSample, i, mixedData). length sourceData - i)") auto

declare mix_loop.simps [simp del]

definition mix_entry :: "real \<Rightarrow> nat \<Rightarrow> MixEntry \<Rightarrow> real list \<Rightarrow> error + real list" where
  "mix_entry rate channel entry mixedData =
     (case entry of (buffer, startTime, volume) \<Rightarrow>
        let startSample = \<lfloor>double (startTime * rate)\<rfloor>;
            sourceChannel = min (int channel) (int (numberOfChannels buffer) - 1)
        in case getChannelData buffer sourceChannel of
             Inl e \<Rightarrow> Inl e
           | Inr sourceData \<Rightarrow> Inr (mix_loop sourceData volume startSample 0 mixedData))"

definition mix_channel :: "MixEntry list \<Rightarrow> real \<Rightarrow> nat \<Rightarrow> AudioBuffer \<Rightarrow> error + AudioBuffer" where
  "mix_channel buffers rate channel mixedBuffer =
     (case getChannelData mixedBuffer (int channel) of Inl e \<Rightarrow> Inl e | Inr mixedData \<Rightarrow>
      case forEach buffers (mix_entry rate channel) mixedData of Inl e \<Rightarrow> Inl e | Inr mixedData' \<Rightarrow>
        Inr (setChannelData mixedBuffer channel mixedData'))"

text \<open>\<^verbatim>\<open>Math.max(...buffers.map(b => b.buffer.numberOfChannels))\<close>; the list is not empty
  where this is evaluated, and channel counts are natural numbers.\<close>

definition mixAudioBuffers :: "AudioProcessor \<Rightarrow> MixEntry list \<Rightarrow> error + AudioBuffer" where
  "mixAudioBuffers this buffers =
     (if audioContext this = None \<or> length buffers = 0
      then Inl (Error ''Invalid audio context or no buffers provided'')
      else
        let totalLength = fold (\<lambda>(buffer, startTime, volume) totalLength.
                                  let endTime = double (startTime + buffer_duration buffer)
                                  in max totalLength endTime) buffers 0;
            rate = sampleRate (fst (hd buffers));
            totalSamples = \<lfloor>double (totalLength * rate)\<rfloor>;
            channels = fold max (map (\<lambda>b. numberOfChannels (fst b)) buffers) 0
        in case createBuffer channels totalSamples rate of
             Inl e \<Rightarrow> Inl e
           | Inr mixedBuffer \<Rightarrow> forEach [0..<channels] (mix_channel buffers rate) mixedBuffer)"

text \<open>
  What one entry contributes to the mixed sample \<open>j\<close> of an output channel, in the words
  of the specification: the entry's sample at \<open>j\<close> less its start offset
  \<open>\<lfloor>double (startTime * rate)\<rfloor>\<close>, times its volume, taken from the source channel of the same
  index or, if the source has fewer channels, from its last one (so a mono source feeds
  every output channel); nothing where the entry has no sample.
\<close>

definition mix_contribution :: "real \<Rightarrow> nat \<Rightarrow> nat \<Rightarrow> MixEntry \<Rightarrow> real" where
  "mix_contribution rate channel j entry =
     (case entry of (buffer, startTime, volume) \<Rightarrow>
        let k = int j - \<lfloor>double (startTime * rate)\<rfloor>;
            sourceData = channelData buffer ! min channel (numberOfChannels buffer - 1)
        in if 0 \<le> k \<and> k < int (length sourceData) then sourceData ! nat k * volume else 0)"

section \<open>WAV serialization\<close>

subsection \<open>\<^verbatim>\<open>DataView\<close> over a byte buffer\<close>

type_synonym byte = "8 word"

text \<open>A number argument of a \<^verbatim>\<open>DataView\<close> setter is truncated towards zero and then taken
  modulo the field's width (two's complement for the signed setters).\<close>

definition ToInteger :: "real \<Rightarrow> int" where
  "ToInteger x = (if x < 0 then \<lceil>x\<rceil> else \<lfloor>x\<rfloor>)"

primrec le_bytes :: "nat \<Rightarrow> int \<Rightarrow> byte list" where
  "le_bytes 0 n = []"
| "le_bytes (Suc k) n = word_of_int n # le_bytes k (n div 256)"

primrec store_bytes :: "byte list \<Rightarrow> nat \<Rightarrow> byte list \<Rightarrow> byte list" where
  "store_bytes view byteOffset [] = view"
| "store_bytes view byteOffset (b # bs) = store_bytes (view[byteOffset := b]) (Suc byteOffset) bs"

text \<open>A setter raises \<open>RangeError\<close> when the field does not lie inside the buffer.\<close>

definition setBytes :: "nat \<Rightarrow> byte list \<Rightarrow> nat \<Rightarrow> real \<Rightarrow> bool \<Rightarrow> error + byte list" where
  "setBytes width view byteOffset v littleEndian =
     (if byteOffset + width \<le> length view
      then Inr (store_bytes view byteOffset
             (if littleEndian then le_bytes width (ToInteger v)
              else rev (le_bytes width (ToInteger v))))
      else Inl RangeError)"

definition setUint8 :: "byte list \<Rightarrow> nat \<Rightarrow> real \<Rightarrow> error + byte list" where
  "setUint8 view byteOffset v = setBytes 1 view byteOffset v True"

definition setUint16 :: "byte list \<Rightarrow> nat \<Rightarrow> real \<Rightarrow> bool \<Rightarrow> error + byte list" where
  "setUint16 view byteOffset v littleEndian = setBytes 2 view byteOffset v littleEndian"

definition setInt16 :: "byte list \<Rightarrow> nat \<Rightarrow> real \<Rightarrow> bool \<Rightarrow> error + byte list" where
  "setInt16 view byteOffset v littleEndian = setBytes 2 view byteOffset v littleEndian"

definition setUint32 :: "byte list \<Rightarrow> nat \<Rightarrow> real \<Rightarrow> bool \<Rightarrow> error + byte list" where
  "setUint32 view byteOffset v littleEndian = setBytes 4 view byteOffset v littleEndian"

text \<open>The little-endian getters, by which a reader of the file decodes a field.\<close>

primrec le_value :: "byte list \<Rightarrow> int" where
  "le_value [] = 0"
| "le_value (b # bs) = uint b + 256 * le_value bs"

definition getUint16 :: "byte list \<Rightarrow> nat \<Rightarrow> int" where
  "getUint16 view byteOffset = le_value (take 2 (drop byteOffset view))"

definition getUint32 :: "byte list \<Rightarrow> nat \<Rightarrow> int" where
  "getUint32 view byteOffset = le_value (take 4 (drop byteOffset view))"

definition getInt16 :: "byte list \<Rightarrow> nat \<Rightarrow> int" where
  "getInt16 view byteOffset =
     (let u = getUint16 view byteOffset in if u \<ge> 32768 then u - 65536 else u)"

text \<open>The four bytes of a chunk tag, read as characters.\<close>

definition getTag :: "byte list \<Rightarrow> nat \<Rightarrow> string" where
  "getTag view byteOffset = map (\<lambda>b. char_of (unat b)) (take 4 (drop byteOffset view))"

subsection \<open>\<^verbatim>\<open>exportToWav\<close>\<close>

text \<open>The local function \<^verbatim>\<open>writeString\<close>; \<^verbatim>\<open>charCodeAt\<close> is \<open>of_char\<close>.\<close>

definition writeString :: "byte list \<Rightarrow> nat \<Rightarrow> string \<Rightarrow> error + byte list" where
  "writeString view offset str =
     forEach [0..<length str]
       (\<lambda>i view. setUint8 view (offset + i) (real (of_char (str ! i)))) view"

text \<open>The value handed to \<^verbatim>\<open>setInt16\<close> for one sample:
  \<^verbatim>\<open>sample = Math.max(-1, Math.min(1, x)); sample < 0 ? sample * 0x8000 : sample * 0x7FFF\<close>.
  A read outside the channel array is \<^verbatim>\<open>undefined\<close>, which the arithmetic turns into NaN
  and \<^verbatim>\<open>setInt16\<close> into 0.\<close>

definition pcm16 :: "real option \<Rightarrow> real" where
  "pcm16 x =
     (case x of
        None \<Rightarrow> 0
      | Some v \<Rightarrow> let sample = max (- 1) (min 1 v)
                  in if sample < 0 then sample * 32768 else sample * 32767)"

definition exportToWav_sample ::
  "AudioBuffer \<Rightarrow> nat \<Rightarrow> nat \<Rightarrow> byte list \<times> nat \<Rightarrow> error + byte list \<times> nat" where
  "exportToWav_sample audioBuffer i channel st =
     (case st of (view, offset) \<Rightarrow>
        case getChannelData audioBuffer (int channel) of Inl e \<Rightarrow> Inl e | Inr data \<Rightarrow>
        case setInt16 view offset (pcm16 (f32_get data (int i))) True of
          Inl e \<Rightarrow> Inl e
        | Inr view' \<Rightarrow> Inr (view', offset + 2))"

text \<open>The header writes, in the order of the source.\<close>

definition exportToWav_header :: "nat \<Rightarrow> real \<Rightarrow> nat \<Rightarrow> (byte list \<Rightarrow> error + byte list) list" where
  "exportToWav_header channels rate len =
     [\<lambda>view. writeString view 0 ''RIFF'',
      \<lambda>view. setUint32 view 4 (real (36 + len * channels * 2)) True,
      \<lambda>view. writeString view 8 ''WAVE'',
      \<lambda>view. writeString view 12 ''fmt '',
      \<lambda>view. setUint32 view 16 16 True,
      \<lambda>view. setUint16 view 20 1 True,
      \<lambda>view. setUint16 view 22 (real channels) True,
      \<lambda>view. setUint32 view 24 rate True,
      \<lambda>view. setUint32 view 28 (rate * real channels * 2) True,
      \<lambda>view. setUint16 view 32 (real (channels * 2)) True,
      \<lambda>view. setUint16 view 34 16 True,
      \<lambda>view. writeString view 36 ''data'',
      \<lambda>view. setUint32 view 40 (real (len * channels * 2)) True]"

definition exportToWav :: "AudioBuffer \<Rightarrow> error + byte list" where
  "exportToWav audioBuffer =
     (let channels = numberOfChannels audioBuffer;
          rate = sampleRate audioBuffer;
          len = blength audioBuffer;
          buffer = replicate (44 + len * channels * 2) (0 :: byte)
      in case forEach (exportToWav_header channels rate len) (\<lambda>write view. write view) buffer of
           Inl e \<Rightarrow> Inl e
         | Inr view \<Rightarrow>
             (case forEach [0..<len]
                     (\<lambda>i. forEach [0..<channels] (exportToWav_sample audioBuffer i)) (view, 44) of
                Inl e \<Rightarrow> Inl e
              | Inr (view', offset) \<Rightarrow> Inr view'))"

subsection \<open>The canonical layout\<close>

text \<open>
  The file the specification describes, written down directly: the 44-byte
  \<^verbatim>\<open>RIFF/WAVE/fmt /data\<close> header, then one little-endian 16-bit field per sample,
  frame by frame with the channels interleaved. \<open>exportToWav\<close> is compared with it.
\<close>

definition ascii :: "string \<Rightarrow> byte list" where
  "ascii str = map (\<lambda>c. word_of_int (int (of_char c))) str"

definition wav_header_bytes :: "nat \<Rightarrow> real \<Rightarrow> nat \<Rightarrow> byte list" where
  "wav_header_bytes channels rate len =
     ascii ''RIFF'' @ le_bytes 4 (int (36 + len * channels * 2)) @
     ascii ''WAVE'' @
     ascii ''fmt '' @ le_bytes 4 16 @
     le_bytes 2 1 @ le_bytes 2 (int channels) @
     le_bytes 4 (ToInteger rate) @ le_bytes 4 (ToInteger (rate * real channels * 2)) @
     le_bytes 2 (int (channels * 2)) @ le_bytes 2 16 @
     ascii ''data'' @ le_bytes 4 (int (len * channels * 2))"

definition wav_sample_bytes :: "AudioBuffer \<Rightarrow> nat \<Rightarrow> byte list" where
  "wav_sample_bytes b k =
     le_bytes 2 (ToInteger (pcm16 (f32_get (channelData b ! (k mod numberOfChannels b))
                                      (int (k div numberOfChannels b)))))"

definition wav_data_bytes :: "AudioBuffer \<Rightarrow> byte list" where
  "wav_data_bytes b =
     concat (map (wav_sample_bytes b) [0..<blength b * numberOfChannels b])"

section \<open>The timeline model and the editor store\<close>

text \<open>
  \<^verbatim>\<open>VideoClip | AudioClip | TextClip\<close> is an untagged union of interfaces; the code tells the
  variants apart by the presence of a property (\<^verbatim>\<open>'file' in clip\<close>). The model is one
  record with a tag: the media fields (\<open>clip_file\<close>, \<open>clip_duration\<close>, \<open>trimStart\<close>, \<open>trimEnd\<close>,
  \<open>volume\<close>) are those of a video or audio clip and are not read for a text clip. Only
  the fields the modelled code reads are kept (not the render transform, fonts, colours).
  \<open>clip_id\<close>, \<open>clip_file\<close>, \<open>clip_duration\<close>, \<open>track_id\<close> and \<open>track_type\<close> are the
  properties \<^verbatim>\<open>id\<close>, \<^verbatim>\<open>file\<close>, \<^verbatim>\<open>duration\<close>, \<^verbatim>\<open>id\<close> and \<^verbatim>\<open>type\<close> of the source.
\<close>

datatype ClipKind = VideoClip | AudioClip | TextClip

datatype File = File (name: string) (content: "byte list")

record ClipEffect =
  effect_type :: string
  intensity :: real
  parameters :: "string \<rightharpoonup> real"
  enabled :: bool

record Clip =
  clip_id :: string
  kind :: ClipKind
  clip_file :: File
  clip_duration :: real
  startTime :: real
  endTime :: real
  trimStart :: real
  trimEnd :: real
  volume :: real
  track :: nat
  effects :: "ClipEffect list"

definition has_file :: "Clip \<Rightarrow> bool" where
  "has_file clip \<longleftrightarrow> kind clip \<noteq> TextClip"

datatype TrackType = VideoTrack | AudioTrack | TextTrack

record Track =
  track_id :: string
  track_type :: TrackType
  muted :: bool
  locked :: bool
  visible :: bool
  clips :: "Clip list"

record Timeline =
  duration :: real
  tracks :: "Track list"

text \<open>The part of the store the clip actions touch: \<^verbatim>\<open>state.project.timeline\<close> and
  \<^verbatim>\<open>state.project.selectedClips\<close>.\<close>

record EditorState =
  timeline :: Timeline
  selectedClips :: "string list"

text \<open>\<open>update_first P f xs\<close> mutates the element that \<^verbatim>\<open>xs.find(P)\<close> (or
  \<^verbatim>\<open>xs[xs.findIndex(P)]\<close>) refers to.\<close>

primrec update_first :: "('a \<Rightarrow> bool) \<Rightarrow> ('a \<Rightarrow> 'a) \<Rightarrow> 'a list \<Rightarrow> 'a list" where
  "update_first P f [] = []"
| "update_first P f (x # xs) = (if P x then f x # xs else x # update_first P f xs)"

definition addClip :: "string \<Rightarrow> Clip \<Rightarrow> EditorState \<Rightarrow> EditorState" where
  "addClip trackId clip state =
     (case List.find (\<lambda>t. track_id t = trackId) (tracks (timeline state)) of
        None \<Rightarrow> state
      | Some _ \<Rightarrow>
          let pushed = update_first (\<lambda>t. track_id t = trackId)
                         (\<lambda>t. t\<lparr>clips := clips t @ [clip]\<rparr>) (tracks (timeline state));
              clipEnd = startTime clip + (endTime clip - startTime clip)
          in state\<lparr>timeline := (timeline state)
               \<lparr>tracks := pushed,
                duration := (if clipEnd > duration (timeline state) then clipEnd
                             else duration (timeline state))\<rparr>\<rparr>)"

definition removeClip :: "string \<Rightarrow> EditorState \<Rightarrow> EditorState" where
  "removeClip clipId state =
     state\<lparr>timeline := (timeline state)
             \<lparr>tracks := map (\<lambda>t. t\<lparr>clips := filter (\<lambda>clip. clip_id clip \<noteq> clipId) (clips t)\<rparr>)
                          (tracks (timeline state))\<rparr>,
           selectedClips := filter (\<lambda>i. i \<noteq> clipId) (selectedClips state)\<rparr>"

text \<open>\<^verbatim>\<open>Partial<VideoClip | AudioClip | TextClip>\<close>: each property is present or absent.\<close>

record ClipUpdates =
  new_id :: "string option"
  new_kind :: "ClipKind option"
  new_file :: "File option"
  new_duration :: "real option"
  new_startTime :: "real option"
  new_endTime :: "real option"
  new_trimStart :: "real option"
  new_trimEnd :: "real option"
  new_volume :: "real option"
  new_track :: "nat option"
  new_effects :: "ClipEffect list option"

definition assign :: "'a \<Rightarrow> 'a option \<Rightarrow> 'a" where
  "assign old new = (case new of None \<Rightarrow> old | Some v \<Rightarrow> v)"

text \<open>\<^verbatim>\<open>Object.assign(clip, updates)\<close>.\<close>

definition Object_assign :: "Clip \<Rightarrow> ClipUpdates \<Rightarrow> Clip" where
  "Object_assign clip updates =
     \<lparr>clip_id = assign (clip_id clip) (new_id updates),
      kind = assign (kind clip) (new_kind updates),
      clip_file = assign (clip_file clip) (new_file updates),
      clip_duration = assign (clip_duration clip) (new_duration updates),
      startTime = assign (startTime clip) (new_startTime updates),
      endTime = assign (endTime clip) (new_endTime updates),
      trimStart = assign (trimStart clip) (new_trimStart updates),
      trimEnd = assign (trimEnd clip) (new_trimEnd updates),
      volume = assign (volume clip) (new_volume updates),
      track = assign (track clip) (new_track updates),
      effects = assign (effects clip) (new_effects updates)\<rparr>"

definition updateClip :: "string \<Rightarrow> ClipUpdates \<Rightarrow> EditorState \<Rightarrow> EditorState" where
  "updateClip clipId updates state =
     state\<lparr>timeline := (timeline state)
             \<lparr>tracks := map (\<lambda>t. t\<lparr>clips := update_first (\<lambda>clip. clip_id clip = clipId)
                                               (\<lambda>clip. Object_assign clip updates) (clips t)\<rparr>)
                          (tracks (timeline state))\<rparr>\<rparr>"

subsection \<open>The clips drawn at a time (\<^verbatim>\<open>renderFrame\<close>)\<close>

text \<open>
  \<^verbatim>\<open>Array.prototype.sort\<close> with the comparator \<^verbatim>\<open>(a, b) => a.startTime - b.startTime\<close> is a
  stable sort by \<open>startTime\<close> (stability is required since ECMAScript 2019); \<open>sort_key\<close> is
  the stable insertion sort, and a stable sort's result is unique.
\<close>

definition visibleClips :: "Timeline \<Rightarrow> real \<Rightarrow> Clip list" where
  "visibleClips tline currentTime =
     sort_key startTime
       (filter (\<lambda>clip. startTime clip \<le> currentTime \<and> endTime clip > currentTime)
          (concat (map clips (filter visible (tracks tline)))))"

subsection \<open>The initial store, and sample data\<close>

text \<open>The tracks of \<^verbatim>\<open>defaultState\<close>: one empty video track and one empty audio track.\<close>

definition defaultState :: EditorState where
  "defaultState =
     \<lparr>timeline =
        \<lparr>duration = 0,
         tracks =
           [\<lparr>track_id = ''video-track-1'', track_type = VideoTrack, muted = False,
             locked = False, visible = True, clips = []\<rparr>,
            \<lparr>track_id = ''audio-track-1'', track_type = AudioTrack, muted = False,
             locked = False, visible = True, clips = []\<rparr>]\<rparr>,
      selectedClips = []\<rparr>"

text \<open>A video clip with the given id and timeline position, untrimmed, at full volume, as
  the media library creates one; and a track with the given id, type, visibility and
  clips. They build the concrete inputs of the examples.\<close>

definition clip_at :: "string \<Rightarrow> real \<Rightarrow> real \<Rightarrow> Clip" where
  "clip_at i s e =
     \<lparr>clip_id = i, kind = VideoClip, clip_file = File (i @ ''.mp4'') [], clip_duration = e - s,
      startTime = s, endTime = e, trimStart = 0, trimEnd = e - s, volume = 1, track = 0,
      effects = []\<rparr>"

definition track_of :: "string \<Rightarrow> TrackType \<Rightarrow> bool \<Rightarrow> Clip list \<Rightarrow> Track" where
  "track_of i ty vis cs =
     \<lparr>track_id = i, track_type = ty, muted = False, locked = False, visible = vis, clips = cs\<rparr>"

text \<open>The update \<^verbatim>\<open>{}\<close> that carries no property.\<close>

definition no_updates :: ClipUpdates where
  "no_updates =
     \<lparr>new_id = None, new_kind = None, new_file = None, new_duration = None,
      new_startTime = None, new_endTime = None, new_trimStart = None, new_trimEnd = None,
      new_volume = None, new_track = None, new_effects = None\<rparr>"

section \<open>The export pipeline\<close>

text \<open>
  What the browser and the transcoder do is not code of the repository. It enters the
  model as a parameter: whether loading the transcoder fails, what \<^verbatim>\<open>decodeAudioData\<close>
  returns for a file, what an offline rendering of a filter graph returns, and what a
  transcoder job returns.
\<close>

datatype VideoFilter =
    EqBrightness real | EqContrast real | EqSaturation real | Hue real | BoxBlur real
  | GrayscaleMixer | SepiaMixer | Negate

datatype FFmpegJob =
    TrimVideo File real real
  | ApplyVideoFilter File VideoFilter
  | MergeVideos "File list"
  | AddAudioToVideo File File
  | ConvertToFormat File string string

record Platform =
  ffmpegLoad :: "error option"
  ffmpegRun :: "FFmpegJob \<Rightarrow> error + byte list"
  decodeAudioData :: "File \<Rightarrow> error + AudioBuffer"
  renderLowPass :: "AudioBuffer \<Rightarrow> real \<Rightarrow> error + AudioBuffer"
  renderHighPass :: "AudioBuffer \<Rightarrow> real \<Rightarrow> error + AudioBuffer"
  renderReverb :: "AudioBuffer \<Rightarrow> real \<Rightarrow> real \<Rightarrow> error + AudioBuffer"

subsection \<open>Audio: \<^verbatim>\<open>processAudioClips\<close>\<close>

definition loadAudioFile :: "Platform \<Rightarrow> AudioProcessor \<Rightarrow> File \<Rightarrow> error + AudioBuffer" where
  "loadAudioFile platform this f =
     (if audioContext this = None then Inl (Error ''Audio context not initialized'')
      else decodeAudioData platform f)"

definition applyLowPassFilter ::
  "Platform \<Rightarrow> AudioProcessor \<Rightarrow> AudioBuffer \<Rightarrow> real \<Rightarrow> error + AudioBuffer" where
  "applyLowPassFilter platform this audioBuffer frequency =
     (if audioContext this = None then Inl (Error ''Audio context not initialized'')
      else renderLowPass platform audioBuffer frequency)"

definition applyHighPassFilter ::
  "Platform \<Rightarrow> AudioProcessor \<Rightarrow> AudioBuffer \<Rightarrow> real \<Rightarrow> error + AudioBuffer" where
  "applyHighPassFilter platform this audioBuffer frequency =
     (if audioContext this = None then Inl (Error ''Audio context not initialized'')
      else renderHighPass platform audioBuffer frequency)"

definition applyReverb ::
  "Platform \<Rightarrow> AudioProcessor \<Rightarrow> AudioBuffer \<Rightarrow> real \<Rightarrow> real \<Rightarrow> error + AudioBuffer" where
  "applyReverb platform this audioBuffer reverbTime decay =
     (if audioContext this = None then Inl (Error ''Audio context not initialized'')
      else renderReverb platform audioBuffer reverbTime decay)"

text \<open>\<^verbatim>\<open>x || d\<close> on a number that may be absent: \<^verbatim>\<open>undefined\<close> and \<open>0\<close> are falsy.\<close>

definition or_default :: "real option \<Rightarrow> real \<Rightarrow> real" where
  "or_default x d = (case x of None \<Rightarrow> d | Some v \<Rightarrow> if v = 0 then d else v)"

text \<open>One turn of \<^verbatim>\<open>for (const effect of clip.effects)\<close>, with its \<^verbatim>\<open>switch\<close>.\<close>

definition applyAudioEffect ::
  "Platform \<Rightarrow> AudioProcessor \<Rightarrow> ClipEffect \<Rightarrow> AudioBuffer \<Rightarrow> error + AudioBuffer" where
  "applyAudioEffect platform this effect audioBuffer =
     (if \<not> enabled effect then Inr audioBuffer
      else if effect_type effect = ''normalize'' then normalizeAudio this audioBuffer
      else if effect_type effect = ''lowpass'' then
        applyLowPassFilter platform this audioBuffer
          (or_default (parameters effect ''frequency'') 1000)
      else if effect_type effect = ''highpass'' then
        applyHighPassFilter platform this audioBuffer
          (or_default (parameters effect ''frequency'') 100)
      else if effect_type effect = ''reverb'' then
        applyReverb platform this audioBuffer (or_default (parameters effect ''time'') 2) 2
      else Inr audioBuffer)"

text \<open>One turn of \<^verbatim>\<open>for (const clip of clips)\<close>: load, trim, volume, effects, push.\<close>

definition processAudioClip ::
  "Platform \<Rightarrow> AudioProcessor \<Rightarrow> Clip \<Rightarrow> MixEntry list \<Rightarrow> error + MixEntry list" where
  "processAudioClip platform this clip audioBuffers =
     (case loadAudioFile platform this (clip_file clip) of Inl e \<Rightarrow> Inl e | Inr loaded \<Rightarrow>
      case (if trimStart clip > 0 \<or> trimEnd clip < clip_duration clip
            then trimAudio this loaded (trimStart clip) (trimEnd clip)
            else Inr loaded) of Inl e \<Rightarrow> Inl e | Inr trimmed \<Rightarrow>
      case (if volume clip \<noteq> 1 then changeVolume this trimmed (volume clip)
            else Inr trimmed) of Inl e \<Rightarrow> Inl e | Inr scaled \<Rightarrow>
      case forEach (effects clip) (applyAudioEffect platform this) scaled of
        Inl e \<Rightarrow> Inl e
      | Inr audioBuffer \<Rightarrow>
          Inr (audioBuffers @ [(audioBuffer, startTime clip, or_default (Some (volume clip)) 1)]))"

text \<open>The list handed to \<^verbatim>\<open>mixAudioBuffers\<close>, and the mix of \<^verbatim>\<open>processAudioClips\<close> before
  its serialization.\<close>

definition processAudioClips_buffers ::
  "Platform \<Rightarrow> AudioProcessor \<Rightarrow> Clip list \<Rightarrow> error + MixEntry list" where
  "processAudioClips_buffers platform this clips' =
     forEach clips' (processAudioClip platform this) []"

definition processAudioClips_mixed ::
  "Platform \<Rightarrow> AudioProcessor \<Rightarrow> Clip list \<Rightarrow> error + AudioBuffer" where
  "processAudioClips_mixed platform this clips' =
     (case processAudioClips_buffers platform this clips' of
        Inl e \<Rightarrow> Inl e
      | Inr audioBuffers \<Rightarrow> mixAudioBuffers this audioBuffers)"

definition processAudioClips ::
  "Platform \<Rightarrow> AudioProcessor \<Rightarrow> Clip list \<Rightarrow> error + byte list" where
  "processAudioClips platform this clips' =
     (case processAudioClips_mixed platform this clips' of
        Inl e \<Rightarrow> Inl e
      | Inr mixedBuffer \<Rightarrow> exportToWav mixedBuffer)"

subsection \<open>The orchestrator: \<^verbatim>\<open>processTimelineExport\<close>\<close>

text \<open>
  The state of the two processor singletons, and the operations of the external services
  invoked so far, oldest first. An exception leaves the state as it was when it was
  raised. The progress display (\<^verbatim>\<open>setExportProgress\<close>) is not modelled.
\<close>

datatype ServiceCall =
    FFmpegLoad | AudioContextResume | FFmpegOnProgress
  | FFmpegExec FFmpegJob | AudioProcessing "Clip list" | Download string

record ExportEnv =
  isLoaded :: bool
  audioProcessor :: AudioProcessor
  calls :: "ServiceCall list"

type_synonym 'a io = "ExportEnv \<Rightarrow> (error + 'a) \<times> ExportEnv"

primrec forEachIO :: "'i list \<Rightarrow> ('i \<Rightarrow> 's \<Rightarrow> 's io) \<Rightarrow> 's \<Rightarrow> 's io" where
  "forEachIO [] body s env = (Inr s, env)"
| "forEachIO (x # xs) body s env =
     (case body x s env of
        (Inl e, env') \<Rightarrow> (Inl e, env')
      | (Inr s', env') \<Rightarrow> forEachIO xs body s' env')"

definition videoProcessor_initialize :: "Platform \<Rightarrow> unit io" where
  "videoProcessor_initialize platform env =
     (if isLoaded env then (Inr (), env)
      else case ffmpegLoad platform of
             Some e \<Rightarrow> (Inl e, env\<lparr>calls := calls env @ [FFmpegLoad]\<rparr>)
           | None \<Rightarrow> (Inr (), env\<lparr>isLoaded := True, calls := calls env @ [FFmpegLoad]\<rparr>))"

definition audioProcessor_initialize :: "unit io" where
  "audioProcessor_initialize env =
     (case audioContext (audioProcessor env) of
        None \<Rightarrow> (Inl (Error ''Audio context not supported''), env)
      | Some Suspended \<Rightarrow>
          (Inr (), env\<lparr>audioProcessor := \<lparr>audioContext = Some Running\<rparr>,
                       calls := calls env @ [AudioContextResume]\<rparr>)
      | Some _ \<Rightarrow> (Inr (), env))"

text \<open>A method of the video processor (\<^verbatim>\<open>trimVideo\<close>, \<^verbatim>\<open>applyVideoFilter\<close>, \<^verbatim>\<open>mergeVideos\<close>,
  \<^verbatim>\<open>addAudioToVideo\<close>, \<^verbatim>\<open>convertToFormat\<close>): load the transcoder if needed, run the job.\<close>

definition videoProcessor_run :: "Platform \<Rightarrow> FFmpegJob \<Rightarrow> (byte list) io" where
  "videoProcessor_run platform job env =
     (case videoProcessor_initialize platform env of
        (Inl e, env') \<Rightarrow> (Inl e, env')
      | (Inr _, env') \<Rightarrow> (ffmpegRun platform job, env'\<lparr>calls := calls env' @ [FFmpegExec job]\<rparr>))"

definition getFFmpegFilterString :: "ClipEffect \<Rightarrow> VideoFilter option" where
  "getFFmpegFilterString effect =
     (if effect_type effect = ''brightness'' then Some (EqBrightness ((intensity effect - 50) / 100))
      else if effect_type effect = ''contrast'' then Some (EqContrast (1 + (intensity effect - 50) / 100))
      else if effect_type effect = ''saturation'' then Some (EqSaturation (1 + (intensity effect - 50) / 100))
      else if effect_type effect = ''hue'' then Some (Hue (intensity effect * 36 / 10))
      else if effect_type effect = ''blur'' then Some (BoxBlur (intensity effect / 10))
      else if effect_type effect = ''grayscale'' then Some GrayscaleMixer
      else if effect_type effect = ''sepia'' then Some SepiaMixer
      else if effect_type effect = ''invert'' then Some Negate
      else None)"

definition applyVideoEffect :: "Platform \<Rightarrow> string \<Rightarrow> ClipEffect \<Rightarrow> byte list \<Rightarrow> (byte list) io" where
  "applyVideoEffect platform fileName effect processedBlob env =
     (if \<not> enabled effect then (Inr processedBlob, env)
      else case getFFmpegFilterString effect of
             None \<Rightarrow> (Inr processedBlob, env)
           | Some filterString \<Rightarrow>
               videoProcessor_run platform
                 (ApplyVideoFilter (File fileName processedBlob) filterString) env)"

definition processVideoClip :: "Platform \<Rightarrow> Clip \<Rightarrow> File list \<Rightarrow> (File list) io" where
  "processVideoClip platform clip processedFiles env =
     (let fileName = name (clip_file clip) in
      case (if trimStart clip > 0 \<or> trimEnd clip < clip_duration clip
            then videoProcessor_run platform
                   (TrimVideo (File fileName (content (clip_file clip))) (trimStart clip) (trimEnd clip)) env
            else (Inr (content (clip_file clip)), env)) of
        (Inl e, env') \<Rightarrow> (Inl e, env')
      | (Inr trimmed, env') \<Rightarrow>
          (case forEachIO (effects clip) (applyVideoEffect platform fileName) trimmed env' of
             (Inl e, env'') \<Rightarrow> (Inl e, env'')
           | (Inr processedBlob, env'') \<Rightarrow>
               (Inr (processedFiles @ [File fileName processedBlob]), env'')))"

definition processVideoClips :: "Platform \<Rightarrow> Clip list \<Rightarrow> (byte list) io" where
  "processVideoClips platform clips' env =
     (case forEachIO clips' (processVideoClip platform) [] env of
        (Inl e, env') \<Rightarrow> (Inl e, env')
      | (Inr processedFiles, env') \<Rightarrow>
          if length processedFiles > 1
          then videoProcessor_run platform (MergeVideos processedFiles) env'
          else (case processedFiles of
                  [] \<Rightarrow> (Inl TypeError, env')
                | f # _ \<Rightarrow> (Inr (content f), env')))"

record ExportSettings =
  format :: string
  quality :: string

text \<open>The export after the clips are collected and found not to be both empty.\<close>

definition exportClips ::
  "Platform \<Rightarrow> string \<Rightarrow> ExportSettings \<Rightarrow> Clip list \<Rightarrow> Clip list \<Rightarrow> (byte list \<times> string) io" where
  "exportClips platform projectName exportSettings videoClips audioClips env =
     (case (if length videoClips > 0
            then (case processVideoClips platform videoClips env of
                    (Inl e, env') \<Rightarrow> (Inl e, env')
                  | (Inr blob, env') \<Rightarrow> (Inr (Some blob), env'))
            else (Inr None, env)) of
        (Inl e, env1) \<Rightarrow> (Inl e, env1)
      | (Inr finalVideoBlob, env1) \<Rightarrow>
     (case (if length audioClips > 0
            then (case processAudioClips platform (audioProcessor env1) audioClips of
                    Inl e \<Rightarrow> (Inl e, env1\<lparr>calls := calls env1 @ [AudioProcessing audioClips]\<rparr>)
                  | Inr blob \<Rightarrow>
                      (Inr (Some blob), env1\<lparr>calls := calls env1 @ [AudioProcessing audioClips]\<rparr>))
            else (Inr None, env1)) of
        (Inl e, env2) \<Rightarrow> (Inl e, env2)
      | (Inr finalAudioBlob, env2) \<Rightarrow>
     (case (case (finalVideoBlob, finalAudioBlob) of
              (Some v, Some a) \<Rightarrow>
                videoProcessor_run platform
                  (AddAudioToVideo (File ''video.mp4'' v) (File ''audio.wav'' a)) env2
            | (Some v, None) \<Rightarrow> (Inr v, env2)
            | (None, Some a) \<Rightarrow> (Inr a, env2)
            | (None, None) \<Rightarrow> (Inl (Error ''No valid output generated''), env2)) of
        (Inl e, env3) \<Rightarrow> (Inl e, env3)
      | (Inr finalBlob, env3) \<Rightarrow>
     (case (if format exportSettings \<noteq> ''mp4'' \<or> quality exportSettings \<noteq> ''high''
            then videoProcessor_run platform
                   (ConvertToFormat (File ''temp.mp4'' finalBlob) (format exportSettings)
                      (quality exportSettings)) env3
            else (Inr finalBlob, env3)) of
        (Inl e, env4) \<Rightarrow> (Inl e, env4)
      | (Inr converted, env4) \<Rightarrow>
          (let filename = projectName @ ''.'' @ format exportSettings
           in (Inr (converted, filename), env4\<lparr>calls := calls env4 @ [Download filename]\<rparr>))))))"

definition exportVideoClips :: "Timeline \<Rightarrow> Clip list" where
  "exportVideoClips tline =
     sort_key startTime
       (filter has_file
          (concat (map clips (filter (\<lambda>t. track_type t = VideoTrack \<and> visible t) (tracks tline)))))"

definition exportAudioClips :: "Timeline \<Rightarrow> Clip list" where
  "exportAudioClips tline =
     sort_key startTime
       (filter has_file
          (concat (map clips (filter (\<lambda>t. track_type t = AudioTrack \<and> \<not> muted t) (tracks tline)))))"

definition processTimelineExport ::
  "Platform \<Rightarrow> string \<Rightarrow> Timeline \<Rightarrow> ExportSettings \<Rightarrow> (byte list \<times> string) io" where
  "processTimelineExport platform projectName tline exportSettings env =
     (case videoProcessor_initialize platform env of
        (Inl e, env1) \<Rightarrow> (Inl e, env1)
      | (Inr _, env1) \<Rightarrow>
     (case audioProcessor_initialize env1 of
        (Inl e, env2) \<Rightarrow> (Inl e, env2)
      | (Inr _, env2) \<Rightarrow>
          (let env3 = env2\<lparr>calls := calls env2 @ [FFmpegOnProgress]\<rparr>;
               videoClips = exportVideoClips tline;
               audioClips = exportAudioClips tline
           in if length videoClips = 0 \<and> length audioClips = 0
              then (Inl (Error ''No clips to export''), env3)
              else exportClips platform projectName exportSettings videoClips audioClips env3)))"
section \<open>Loop rules\<close>

lemma forEach_append:
  "forEach (xs @ ys) body s =
     (case forEach xs body s of Inl e \<Rightarrow> Inl e | Inr s' \<Rightarrow> forEach ys body s')"
  by (induction xs arbitrary: s) (auto split: sum.splits)

lemma forEach_upt_invariant:
  assumes step: "\<And>i s. i < n \<Longrightarrow> I i s \<Longrightarrow> \<exists>s'. body i s = Inr s' \<and> I (Suc i) s'"
    and init: "I 0 s0"
  shows "\<exists>s'. forEach [0..<n] body s0 = Inr s' \<and> I n s'"
  using step
proof (induction n)
  case 0
  then show ?case using init by simp
next
  case (Suc n)
  then obtain s1 where s1: "forEach [0..<n] body s0 = Inr s1" "I n s1"
    by (metis less_Suc_eq)
  from Suc.prems [of n s1] s1 obtain s2 where "body n s1 = Inr s2" "I (Suc n) s2"
    by auto
  with s1 show ?case by (simp add: forEach_append)
qed

lemma fold_f32_set_upt:
  "n \<le> length a \<Longrightarrow>
   fold (\<lambda>i data. f32_set data (int i) (f i)) [0..<n] a = map f [0..<n] @ drop n a"
proof (induction n)
  case 0
  then show ?case by simp
next
  case (Suc n)
  then have n: "n < length a" by simp
  have "(map f [0..<n] @ drop n a)[n := f n] = map f [0..<n] @ (drop n a)[0 := f n]"
    by (simp add: list_update_append)
  also have "(drop n a)[0 := f n] = f n # drop (Suc n) a"
    using n by (metis Cons_nth_drop_Suc list_update_code(2))
  finally show ?case using Suc n by (simp add: f32_set_def)
qed

section \<open>Rounding to a double\<close>

lemma pow2_powr: "pow2 k = 2 powr (of_int k)"
proof (cases "0 \<le> k")
  case True
  then show ?thesis by (simp add: pow2_def powr_realpow [symmetric])
next
  case False
  then have "real_of_int k = - real (nat (- k))" by simp
  then have "2 powr (real_of_int k) = 2 powr (- real (nat (- k)))" by (simp only:)
  also have "\<dots> = 1 / 2 powr real (nat (- k))" by (rule powr_minus_divide)
  also have "\<dots> = 1 / 2 ^ nat (- k)" by (simp add: powr_realpow)
  finally show ?thesis using False by (simp add: pow2_def)
qed

lemma pow2_pos: "0 < pow2 k"
  by (simp add: pow2_powr)

lemma pow2_add: "pow2 (a + b) = pow2 a * pow2 b"
  by (simp add: pow2_powr powr_add)

lemma pow2_mono: "a \<le> b \<Longrightarrow> pow2 a \<le> pow2 b"
  by (simp add: pow2_powr)

lemma pow2_less_iff: "pow2 a < pow2 b \<longleftrightarrow> a < b"
  by (simp add: pow2_powr)

lemma pow2_nat: "pow2 (int n) = 2 ^ n"
  by (simp add: pow2_def)

lemma pow2_neg_nat: "pow2 (- int n) = 1 / 2 ^ n"
  by (cases "n = 0") (simp_all add: pow2_def)

lemma binade_floorlog:
  "binade x = (if 1 \<le> \<bar>x\<bar> then int (floorlog 2 (nat \<lfloor>\<bar>x\<bar>\<rfloor>)) - 1
               else - int (floorlog 2 (nat \<lceil>1 / \<bar>x\<bar>\<rceil> - 1)))"
proof -
  have "nat (\<lceil>1 / \<bar>x\<bar>\<rceil> - 1) = nat \<lceil>1 / \<bar>x\<bar>\<rceil> - 1" by linarith
  then show ?thesis by (simp add: binade_def bitlen_def)
qed

lemma binade_le:
  assumes "x \<noteq> 0"
  shows "pow2 (binade x) \<le> \<bar>x\<bar>"
proof (cases "1 \<le> \<bar>x\<bar>")
  case True
  let ?n = "nat \<lfloor>\<bar>x\<bar>\<rfloor>"
  have n: "0 < ?n" using True by simp
  have "(2::nat) ^ (floorlog 2 ?n - 1) \<le> ?n"
    using floorlog_bounds [of ?n 2] n by simp
  then have "real ((2::nat) ^ (floorlog 2 ?n - 1)) \<le> real ?n"
    by (rule of_nat_mono)
  also have "real ?n \<le> \<bar>x\<bar>" using True by simp
  finally have le: "2 ^ (floorlog 2 ?n - 1) \<le> \<bar>x\<bar>" by simp
  have "0 < floorlog 2 ?n" using n by (simp add: floorlog_def)
  then have "binade x = int (floorlog 2 ?n - 1)"
    using True by (simp add: binade_floorlog)
  then show ?thesis using le by (simp add: pow2_nat)
next
  case False
  let ?m = "nat \<lceil>1 / \<bar>x\<bar>\<rceil> - 1"
  let ?k = "floorlog 2 ?m"
  have "?m < 2 ^ ?k"
  proof (cases "?m = 0")
    case True then show ?thesis by simp
  next
    case False then show ?thesis using floorlog_bounds [of ?m 2] by simp
  qed
  then have "nat \<lceil>1 / \<bar>x\<bar>\<rceil> \<le> 2 ^ ?k" by linarith
  then have "real (nat \<lceil>1 / \<bar>x\<bar>\<rceil>) \<le> real (2 ^ ?k)" by (rule of_nat_mono)
  then have "real (nat \<lceil>1 / \<bar>x\<bar>\<rceil>) \<le> 2 ^ ?k" by (simp only: of_nat_power of_nat_numeral)
  moreover have "1 / \<bar>x\<bar> \<le> real (nat \<lceil>1 / \<bar>x\<bar>\<rceil>)"
    by (rule of_nat_ceiling)
  ultimately have "1 / \<bar>x\<bar> \<le> 2 ^ ?k" by (rule order_trans [rotated])
  then have "1 / 2 ^ ?k \<le> \<bar>x\<bar>"
    using assms by (simp add: field_simps)
  then show ?thesis using False by (simp add: binade_floorlog pow2_neg_nat)
qed

lemma binade_gt:
  assumes "x \<noteq> 0"
  shows "\<bar>x\<bar> < pow2 (binade x + 1)"
proof (cases "1 \<le> \<bar>x\<bar>")
  case True
  let ?n = "nat \<lfloor>\<bar>x\<bar>\<rfloor>"
  have n: "0 < ?n" using True by simp
  have "?n < 2 ^ floorlog 2 ?n"
    using floorlog_bounds [of ?n 2] n by simp
  then have "Suc ?n \<le> 2 ^ floorlog 2 ?n" by (rule Suc_leI)
  then have "real (Suc ?n) \<le> real (2 ^ floorlog 2 ?n)" by (rule of_nat_mono)
  then have "real ?n + 1 \<le> 2 ^ floorlog 2 ?n" by simp
  moreover have "real ?n = of_int \<lfloor>\<bar>x\<bar>\<rfloor>" using True by simp
  moreover have "\<bar>x\<bar> < of_int \<lfloor>\<bar>x\<bar>\<rfloor> + 1" by (rule real_of_int_floor_add_one_gt)
  ultimately have "\<bar>x\<bar> < 2 ^ floorlog 2 ?n" by linarith
  moreover have "binade x + 1 = int (floorlog 2 ?n)"
    using True by (simp add: binade_floorlog)
  ultimately show ?thesis by (simp add: pow2_nat)
next
  case False
  let ?c = "nat \<lceil>1 / \<bar>x\<bar>\<rceil>"
  let ?m = "?c - 1"
  let ?k = "floorlog 2 ?m"
  have big: "1 < 1 / \<bar>x\<bar>" using False assms by simp
  then have c2: "2 \<le> ?c" by linarith
  then have m: "0 < ?m" by linarith
  have "2 ^ (?k - 1) \<le> ?m" using floorlog_bounds [of ?m 2] m by simp
  then have "real (2 ^ (?k - 1)) \<le> real ?m" by (rule of_nat_mono)
  then have "2 ^ (?k - 1) \<le> real ?m" by (simp only: of_nat_power of_nat_numeral)
  moreover have "real ?m < 1 / \<bar>x\<bar>"
  proof -
    have "real ?m = real ?c - 1" using c2 by (simp add: of_nat_diff)
    moreover have "real ?c = of_int \<lceil>1 / \<bar>x\<bar>\<rceil>" using big by simp
    moreover have "of_int \<lceil>1 / \<bar>x\<bar>\<rceil> - 1 < 1 / \<bar>x\<bar>"
      using ceiling_correct [of "1 / \<bar>x\<bar>"] by simp
    ultimately show ?thesis by linarith
  qed
  ultimately have lt: "2 ^ (?k - 1) < 1 / \<bar>x\<bar>" by (rule le_less_trans)
  have kpos: "0 < ?k" using m by (simp add: floorlog_def)
  have "\<bar>x\<bar> < 1 / 2 ^ (?k - 1)"
    using lt assms by (simp add: field_simps)
  moreover have "binade x + 1 = - int (?k - 1)"
    using False kpos by (simp add: binade_floorlog)
  ultimately show ?thesis by (simp add: pow2_neg_nat)
qed

lemma binade_unique:
  assumes "pow2 e \<le> \<bar>x\<bar>" and "\<bar>x\<bar> < pow2 (e + 1)"
  shows "binade x = e"
proof -
  have nz: "x \<noteq> 0" using assms(1) pow2_pos [of e] by auto
  have "pow2 e < pow2 (binade x + 1)"
    using assms(1) binade_gt [OF nz] by linarith
  moreover have "pow2 (binade x) < pow2 (e + 1)"
    using assms(2) binade_le [OF nz] by linarith
  ultimately show ?thesis by (simp add: pow2_less_iff)
qed

lemma roundTiesToEven_of_int: "roundTiesToEven (of_int n) = n"
  by (simp add: roundTiesToEven_def)

lemma roundTiesToEven_error: "\<bar>of_int (roundTiesToEven y) - y\<bar> \<le> 1 / 2"
  unfolding roundTiesToEven_def Let_def by (auto; linarith)

lemma roundTiesToEven_nonpos: "y \<le> 0 \<Longrightarrow> roundTiesToEven y \<le> 0"
  unfolding roundTiesToEven_def Let_def by (auto; linarith)

lemma roundTiesToEven_nonneg: "0 \<le> y \<Longrightarrow> 0 \<le> roundTiesToEven y"
  unfolding roundTiesToEven_def Let_def by (auto; linarith)

lemma double_zero: "double 0 = 0"
  by (simp add: double_def)

lemma double_nonpos: "x \<le> 0 \<Longrightarrow> double x \<le> 0"
  unfolding double_def Let_def
  by (auto intro!: mult_nonpos_nonneg roundTiesToEven_nonpos divide_nonpos_pos
       simp: pow2_pos less_imp_le)

lemma double_nonneg: "0 \<le> x \<Longrightarrow> 0 \<le> double x"
  unfolding double_def Let_def
  by (auto intro!: mult_nonneg_nonneg roundTiesToEven_nonneg divide_nonneg_pos
       simp: pow2_pos less_imp_le)

text \<open>A number \<open>m * 2^k\<close> with \<open>\<bar>m\<bar> < 2^53\<close> and \<open>k \<ge> -1074\<close> is a double.\<close>

lemma double_exact:
  assumes m: "\<bar>m\<bar> < 2 ^ 53" and k: "- 1074 \<le> k"
  shows "double (of_int m * pow2 k) = of_int m * pow2 k"
proof (cases "m = 0")
  case True then show ?thesis by (simp add: double_def)
next
  case False
  let ?x = "of_int m * pow2 k :: real"
  define e where "e = max (binade ?x) (- 1022) - 52"
  have nz: "?x \<noteq> 0" using False pow2_pos [of k] by simp
  have "pow2 (binade ?x) \<le> \<bar>?x\<bar>" by (rule binade_le [OF nz])
  also have "\<bar>?x\<bar> = \<bar>of_int m\<bar> * pow2 k"
    using pow2_pos [of k] by (simp add: abs_mult)
  also have "\<dots> < 2 ^ 53 * pow2 k"
  proof -
    have "\<bar>of_int m :: real\<bar> < 2 ^ 53"
      using m by (metis of_int_abs of_int_less_numeral_power_cancel_iff)
    then show ?thesis using pow2_pos [of k] by simp
  qed
  also have "\<dots> = pow2 (53 + k)"
  proof -
    have "pow2 53 = 2 ^ 53" by (simp add: pow2_def)
    then show ?thesis by (simp only: pow2_add)
  qed
  finally have "binade ?x < 53 + k" by (simp add: pow2_less_iff)
  then have le: "e \<le> k" using k by (simp add: e_def)
  define n where "n = m * 2 ^ nat (k - e)"
  have "pow2 k = pow2 (k - e) * pow2 e"
    by (simp add: pow2_add [symmetric])
  also have "pow2 (k - e) = of_int (2 ^ nat (k - e))"
    using le by (simp add: pow2_def)
  finally have x: "?x = of_int n * pow2 e"
    by (simp add: n_def)
  then have "?x / pow2 e = of_int n"
    using pow2_pos [of e] by simp
  then have "roundTiesToEven (?x / pow2 e) = n"
    by (simp only: roundTiesToEven_of_int)
  then have "of_int (roundTiesToEven (?x / pow2 e)) * pow2 e = ?x"
    using x by (simp only:)
  then show ?thesis using nz by (simp only: double_def Let_def if_False e_def)
qed

lemma double_of_int:
  assumes "\<bar>m\<bar> < 2 ^ 53"
  shows "double (of_int m) = of_int m"
  using double_exact [OF assms, of 0] by (simp add: pow2_def)

lemma double_of_nat:
  assumes "n < 2 ^ 53"
  shows "double (real n) = real n"
  using double_of_int [of "int n"] assms by simp

text \<open>The value of \<open>double x\<close> when the binade of \<open>x\<close> is known.\<close>

lemma double_eval:
  assumes "pow2 e \<le> \<bar>x\<bar>" and "\<bar>x\<bar> < pow2 (e + 1)" and "- 1022 \<le> e"
  shows "double x = of_int (roundTiesToEven (x / pow2 (e - 52))) * pow2 (e - 52)"
proof -
  have nz: "x \<noteq> 0" using assms(1) pow2_pos [of e] by auto
  have "binade x = e" using assms(1,2) by (rule binade_unique)
  then show ?thesis using nz assms(3) by (simp add: double_def Let_def max_def)
qed

text \<open>The rounding error is at most half a unit in the last place.\<close>

lemma double_error: "\<bar>double x - x\<bar> \<le> \<bar>x\<bar> / 2 ^ 53 + 1 / 2 ^ 1075"
proof (cases "x = 0")
  case True then show ?thesis by (simp add: double_def)
next
  case False
  define e where "e = max (binade x) (- 1022) - 52"
  have u: "0 < pow2 e" by (rule pow2_pos)
  have "double x - x = (of_int (roundTiesToEven (x / pow2 e)) - x / pow2 e) * pow2 e"
    using False u by (simp add: double_def Let_def e_def [symmetric] field_simps)
  then have "\<bar>double x - x\<bar> = \<bar>of_int (roundTiesToEven (x / pow2 e)) - x / pow2 e\<bar> * pow2 e"
    using u by (simp add: abs_mult)
  also have "\<dots> \<le> 1 / 2 * pow2 e"
    using roundTiesToEven_error [of "x / pow2 e"] u by (intro mult_right_mono) simp_all
  also have "\<dots> \<le> \<bar>x\<bar> / 2 ^ 53 + 1 / 2 ^ 1075"
  proof (cases "- 1022 \<le> binade x")
    case True
    then have "pow2 e * 2 ^ 52 = pow2 (binade x)"
      using pow2_add [of e 52] by (simp add: e_def pow2_def)
    then have "pow2 e * 2 ^ 52 \<le> \<bar>x\<bar>" using binade_le [OF False] by simp
    then have "1 / 2 * pow2 e \<le> \<bar>x\<bar> / 2 ^ 53" by (simp add: field_simps)
    then show ?thesis by (simp add: add_increasing2)
  next
    case False
    then have "e = - 1074" by (simp add: e_def)
    then have "1 / 2 * pow2 e = 1 / 2 ^ 1075" by (simp add: pow2_def)
    then show ?thesis by simp
  qed
  finally show ?thesis .
qed

lemma double_dyadic:
  assumes "x * 2 ^ n = of_int m" and "\<bar>m\<bar> < 2 ^ 53" and "n \<le> 1074"
  shows "double x = x"
proof -
  have "x = of_int m * pow2 (- int n)"
    using assms(1) by (simp add: pow2_neg_nat field_simps)
  moreover have "double (of_int m * pow2 (- int n)) = of_int m * pow2 (- int n)"
    using assms(2,3) by (intro double_exact) simp_all
  ultimately show ?thesis by simp
qed

text \<open>Rounding is visible in a frame count: 15 frames of 1/44100 s last
  0.00034013605442176867 s as a double, and that times 44100 is 14.999999999999998.\<close>

lemma double_duration_example:
  "\<lfloor>double (double (15 / 44100) * 44100)\<rfloor> = 14 \<and> \<lfloor>15 / 44100 * 44100 :: real\<rfloor> = 15"
proof -
  have a: "double (15 / 44100) = 6274402746159711 / 2 ^ 64"
    using double_eval [of "-12" "15 / 44100"]
    by (simp add: pow2_def roundTiesToEven_def)
  have c: "double (6274402746159711 / 2 ^ 64 * 44100) = 8444249301319679 / 2 ^ 49"
    using double_eval [of 3 "6274402746159711 / 2 ^ 64 * 44100"]
    by (simp add: pow2_def roundTiesToEven_def)
  have v: "double (double (15 / 44100) * 44100) = 8444249301319679 / 2 ^ 49"
    by (simp only: a c)
  have "\<lfloor>8444249301319679 / 2 ^ 49 :: real\<rfloor> = 14" by simp
  then have "\<lfloor>double (double (15 / 44100) * 44100)\<rfloor> = 14" by (simp only: v)
  then show ?thesis by simp
qed


section \<open>Volume\<close>


lemma map_nth_upt: "length xs = n \<Longrightarrow> map (\<lambda>i. g (xs ! i)) [0..<n] = map g xs"
  by (auto intro: nth_equalityI)

lemma wf_buffer_nth:
  "wf_buffer b \<Longrightarrow> c < numberOfChannels b \<Longrightarrow> length (channelData b ! c) = blength b"
  by (simp add: wf_buffer_def list_all_length)

lemma changeVolume_channel_step:
  assumes wf: "wf_buffer b" and c: "c < numberOfChannels b"
    and s: "numberOfChannels s = numberOfChannels b"
      "channelData s = map (map (\<lambda>x. x * v)) (take c (channelData b)) @
         replicate (numberOfChannels b - c) (replicate (blength b) 0)"
  shows "changeVolume_channel b v c s =
     Inr (s\<lparr>channelData := map (map (\<lambda>x. x * v)) (take (Suc c) (channelData b)) @
         replicate (numberOfChannels b - Suc c) (replicate (blength b) 0)\<rparr>)"
proof -
  let ?A = "map (map (\<lambda>x. x * v)) (take c (channelData b))"
  let ?z = "replicate (blength b) (0::real)"
  have len: "length (channelData b) = numberOfChannels b"
    using wf by (simp add: wf_buffer_def)
  have lenA: "length ?A = c" using c len by simp
  have old: "channelData s ! c = ?z"
    using c lenA by (simp add: s nth_append)
  have lo: "length (channelData b ! c) = blength b"
    using wf c by (rule wf_buffer_nth)
  have inner: "fold (\<lambda>i data. f32_set data (int i) (channelData b ! c ! i * v))
           [0..<blength b] ?z = map (\<lambda>x. x * v) (channelData b ! c)"
    using lo map_nth_upt [of "channelData b ! c" "blength b" "\<lambda>x. x * v"]
    by (simp add: fold_f32_set_upt)
  have rep: "replicate (numberOfChannels b - c) ?z = ?z # replicate (numberOfChannels b - Suc c) ?z"
    using c by (metis Suc_diff_Suc replicate_Suc)
  have upd: "(channelData s)[c := map (\<lambda>x. x * v) (channelData b ! c)] =
      map (map (\<lambda>x. x * v)) (take (Suc c) (channelData b)) @
         replicate (numberOfChannels b - Suc c) ?z"
    using c len lenA by (simp add: s(2) rep list_update_append take_Suc_conv_app_nth)
  show ?thesis
    using c by (simp add: changeVolume_channel_def getChannelData_def s(1) old inner
        setChannelData_def upd)
qed

lemma changeVolume_closed:
  assumes ctx: "audioContext this \<noteq> None" and wf: "wf_buffer b"
  shows "changeVolume this b v = Inr (b\<lparr>channelData := map (map (\<lambda>x. x * v)) (channelData b)\<rparr>)"
proof -
  let ?C = "numberOfChannels b"
  let ?N = "blength b"
  define p0 where "p0 = \<lparr>numberOfChannels = ?C, blength = nat (int ?N), sampleRate = sampleRate b,
                channelData = replicate ?C (replicate (nat (int ?N)) (0::real))\<rparr>"
  define I where "I = (\<lambda>c s. s = p0\<lparr>channelData := map (map (\<lambda>x. x * v)) (take c (channelData b)) @
         replicate (?C - c) (replicate ?N 0)\<rparr>)"
  have cb: "createBuffer ?C (int ?N) (sampleRate b) = Inr p0"
    using wf by (simp add: createBuffer_def wf_buffer_def p0_def)
  have "\<exists>s'. forEach [0..<?C] (changeVolume_channel b v) p0 = Inr s' \<and> I ?C s'"
  proof (rule forEach_upt_invariant)
    show "I 0 p0" by (simp add: I_def p0_def)
  next
    fix i s assume i: "i < ?C" and "I i s"
    then have s: "s = p0\<lparr>channelData := map (map (\<lambda>x. x * v)) (take i (channelData b)) @
         replicate (?C - i) (replicate ?N 0)\<rparr>" by (simp add: I_def)
    have "changeVolume_channel b v i s =
     Inr (s\<lparr>channelData := map (map (\<lambda>x. x * v)) (take (Suc i) (channelData b)) @
         replicate (?C - Suc i) (replicate ?N 0)\<rparr>)"
      by (rule changeVolume_channel_step [OF wf i]) (simp_all add: s p0_def)
    then show "\<exists>s'. changeVolume_channel b v i s = Inr s' \<and> I (Suc i) s'"
      by (simp add: I_def s)
  qed
  then obtain s' where s': "forEach [0..<?C] (changeVolume_channel b v) p0 = Inr s'" "I ?C s'"
    by blast
  have "s' = b\<lparr>channelData := map (map (\<lambda>x. x * v)) (channelData b)\<rparr>"
    using s'(2) wf by (simp add: I_def p0_def wf_buffer_def)
  then show ?thesis using ctx s'(1) by (simp add: changeVolume_def cb)
qed



text \<open>
  C7. With an initialised audio context, \<open>changeVolume\<close> of a buffer returns a new buffer
  of the same shape in which every sample is the input sample times the factor, with no
  clamping; with factor 0 every sample is 0, with factor 1 the output equals the input.
\<close>

theorem changeVolume_multiplies:
  assumes "audioContext this \<noteq> None" and "wf_buffer b"
  shows "\<exists>out. changeVolume this b factor = Inr out \<and> wf_buffer out \<and>
           numberOfChannels out = numberOfChannels b \<and> blength out = blength b \<and>
           sampleRate out = sampleRate b \<and>
           (\<forall>c < numberOfChannels b. \<forall>i < blength b.
              channelData out ! c ! i = channelData b ! c ! i * factor) \<and>
           (factor = 0 \<longrightarrow>
              (\<forall>c < numberOfChannels b. \<forall>i < blength b. channelData out ! c ! i = 0)) \<and>
           (factor = 1 \<longrightarrow> out = b)"
proof -
  let ?out = "b\<lparr>channelData := map (map (\<lambda>x. x * factor)) (channelData b)\<rparr>"
  have run: "changeVolume this b factor = Inr ?out"
    using assms by (rule changeVolume_closed)
  have len: "length (channelData b) = numberOfChannels b"
    and lens: "\<And>c. c < numberOfChannels b \<Longrightarrow> length (channelData b ! c) = blength b"
    using assms(2) by (simp_all add: wf_buffer_def list_all_length)
  have wf: "wf_buffer ?out"
    using assms(2) by (simp add: wf_buffer_def list_all_length)
  have pt: "\<forall>c < numberOfChannels b. \<forall>i < blength b.
              channelData ?out ! c ! i = channelData b ! c ! i * factor"
    using len lens by simp
  have zero: "factor = 0 \<longrightarrow>
      (\<forall>c < numberOfChannels b. \<forall>i < blength b. channelData ?out ! c ! i = 0)"
    using len lens by simp
  have one: "factor = 1 \<longrightarrow> ?out = b"
    by simp
  show ?thesis
    using run wf pt zero one by (intro exI [of _ ?out]) simp
qed

theorem changeVolume_multiplies_witness:
  "audioContext \<lparr>audioContext = Some Running\<rparr> \<noteq> None \<and>
   wf_buffer \<lparr>numberOfChannels = 2, blength = 3, sampleRate = 48000,
              channelData = [[1/2, - 1/4, 1], [0, 3/4, - 1]]\<rparr> \<and>
   (\<exists>out. changeVolume \<lparr>audioContext = Some Running\<rparr>
            \<lparr>numberOfChannels = 2, blength = 3, sampleRate = 48000,
             channelData = [[1/2, - 1/4, 1], [0, 3/4, - 1]]\<rparr> 2 = Inr out \<and>
          channelData out ! 0 ! 2 = 2 \<and> channelData out ! 1 ! 1 = 3/2 \<and>
          channelData out ! 1 ! 2 = - 2)"
proof -
  let ?p = "\<lparr>audioContext = Some Running\<rparr>"
  let ?b = "\<lparr>numberOfChannels = 2, blength = 3, sampleRate = 48000,
              channelData = [[1/2, - 1/4, 1], [0, 3/4, - 1 :: real]]\<rparr>"
  have h1: "audioContext ?p \<noteq> None" by simp
  have h2: "wf_buffer ?b" by (simp add: wf_buffer_def)
  obtain out where out: "changeVolume ?p ?b 2 = Inr out"
      "\<forall>c < 2. \<forall>i < 3. channelData out ! c ! i = channelData ?b ! c ! i * 2"
    using changeVolume_multiplies [OF h1 h2, of 2] by auto
  have "channelData out ! 0 ! 2 = 2" "channelData out ! 1 ! 1 = 3/2" "channelData out ! 1 ! 2 = - 2"
    using out(2) by simp_all
  then show ?thesis using h1 h2 out(1) by blast
qed



section \<open>Filling a fresh buffer channel by channel\<close>

lemma fill_channels:
  assumes body: "\<And>c s. c < C \<Longrightarrow> numberOfChannels s = C \<Longrightarrow> length (channelData s) = C \<Longrightarrow>
             channelData s ! c = z \<Longrightarrow> body c s = Inr (setChannelData s c (F c))"
    and p0: "numberOfChannels p0 = C" "channelData p0 = replicate C z"
  shows "forEach [0..<C] body p0 = Inr (p0\<lparr>channelData := map F [0..<C]\<rparr>)"
proof -
  define I where "I = (\<lambda>c s. s = p0\<lparr>channelData := map F [0..<c] @ replicate (C - c) z\<rparr>)"
  have "\<exists>s'. forEach [0..<C] body p0 = Inr s' \<and> I C s'"
  proof (rule forEach_upt_invariant)
    show "I 0 p0" using p0 by (simp add: I_def)
  next
    fix c s assume c: "c < C" and "I c s"
    then have s: "s = p0\<lparr>channelData := map F [0..<c] @ replicate (C - c) z\<rparr>"
      by (simp add: I_def)
    have rep: "replicate (C - c) z = z # replicate (C - Suc c) z"
      using c by (metis Suc_diff_Suc replicate_Suc)
    have "body c s = Inr (setChannelData s c (F c))"
      using c p0 by (intro body) (simp_all add: s nth_append)
    moreover have "setChannelData s c (F c) =
        p0\<lparr>channelData := map F [0..<Suc c] @ replicate (C - Suc c) z\<rparr>"
      by (simp add: s setChannelData_def rep list_update_append)
    ultimately show "\<exists>s'. body c s = Inr s' \<and> I (Suc c) s'"
      by (simp add: I_def)
  qed
  then show ?thesis by (auto simp: I_def)
qed

section \<open>Trimming\<close>

lemma trimAudio_channel_run:
  assumes wf: "wf_buffer b" and c: "c < numberOfChannels b"
    and s: "numberOfChannels s = numberOfChannels b" "channelData s ! c = replicate (nat len) 0"
  shows "trimAudio_channel b start len c s =
     Inr (setChannelData s c
       (map (\<lambda>i. or_zero (f32_get (channelData b ! c) (start + int i))) [0..<nat len]))"
  using c s
  by (simp add: trimAudio_channel_def getChannelData_def fold_f32_set_upt)

lemma trimAudio_closed:
  assumes ctx: "audioContext this \<noteq> None" and wf: "wf_buffer b"
    and pos: "\<lfloor>double (s * sampleRate b)\<rfloor> < \<lfloor>double (e * sampleRate b)\<rfloor>"
  shows "trimAudio this b s e =
     Inr \<lparr>numberOfChannels = numberOfChannels b,
          blength = nat (\<lfloor>double (e * sampleRate b)\<rfloor> - \<lfloor>double (s * sampleRate b)\<rfloor>),
          sampleRate = sampleRate b,
          channelData = map (\<lambda>c. map (\<lambda>i. or_zero (f32_get (channelData b ! c)
                                   (\<lfloor>double (s * sampleRate b)\<rfloor> + int i)))
                               [0..<nat (\<lfloor>double (e * sampleRate b)\<rfloor> - \<lfloor>double (s * sampleRate b)\<rfloor>)])
                          [0..<numberOfChannels b]\<rparr>"
proof -
  let ?C = "numberOfChannels b"
  let ?start = "\<lfloor>double (s * sampleRate b)\<rfloor>"
  let ?len = "\<lfloor>double (e * sampleRate b)\<rfloor> - ?start"
  define p0 where "p0 = \<lparr>numberOfChannels = ?C, blength = nat ?len, sampleRate = sampleRate b,
                channelData = replicate ?C (replicate (nat ?len) (0::real))\<rparr>"
  have cb: "createBuffer ?C ?len (sampleRate b) = Inr p0"
    using wf pos by (simp add: createBuffer_def wf_buffer_def p0_def)
  have "forEach [0..<?C] (trimAudio_channel b ?start ?len) p0 =
      Inr (p0\<lparr>channelData := map (\<lambda>c. map (\<lambda>i. or_zero (f32_get (channelData b ! c)
                                   (?start + int i))) [0..<nat ?len]) [0..<?C]\<rparr>)"
    by (rule fill_channels [where z = "replicate (nat ?len) 0"])
       (simp_all add: trimAudio_channel_run [OF wf] p0_def)
  then show ?thesis
    using ctx by (simp add: trimAudio_def cb Let_def) (simp add: p0_def)
qed

lemma trimAudio_empty_range:
  assumes ctx: "audioContext this \<noteq> None"
    and emp: "\<lfloor>double (e * sampleRate b)\<rfloor> \<le> \<lfloor>double (s * sampleRate b)\<rfloor>"
  shows "trimAudio this b s e = Inl (DOMException ''NotSupportedError'')"
  using assms by (simp add: trimAudio_def createBuffer_def Let_def)

lemma or_zero_f32_get:
  "or_zero (f32_get a k) = (if 0 \<le> k \<and> k < int (length a) then a ! nat k else 0)"
  by (simp add: or_zero_def f32_get_def)



text \<open>
  C5 (as amended). With an initialised audio context, \<open>trimAudio\<close> of a buffer between
  \<open>s\<close> and \<open>e\<close> takes the frames from \<open>\<lfloor>double (s * rate)\<rfloor>\<close> up to \<open>\<lfloor>double (e * rate)\<rfloor>\<close>,
  the products being rounded to doubles before the floor. When the range holds at least
  one sample-frame it returns a new buffer of
  \<open>\<lfloor>double (e * rate)\<rfloor> - \<lfloor>double (s * rate)\<rfloor>\<close> frames whose sample \<open>i\<close> is the source
  sample \<open>\<lfloor>double (s * rate)\<rfloor> + i\<close>, and 0 where that index lies outside the source (past
  its end, or before its start); no such read raises an error. When the range holds no
  sample-frame, the allocation of the result raises \<open>NotSupportedError\<close>.
\<close>

theorem trimAudio_range:
  assumes "audioContext this \<noteq> None" and "wf_buffer b"
  shows "(\<lfloor>double (s * sampleRate b)\<rfloor> < \<lfloor>double (e * sampleRate b)\<rfloor> \<longrightarrow>
          (\<exists>out. trimAudio this b s e = Inr out \<and> wf_buffer out \<and>
             numberOfChannels out = numberOfChannels b \<and> sampleRate out = sampleRate b \<and>
             int (blength out) = \<lfloor>double (e * sampleRate b)\<rfloor> - \<lfloor>double (s * sampleRate b)\<rfloor> \<and>
             (\<forall>c < numberOfChannels b. \<forall>i < blength out.
                channelData out ! c ! i =
                  (let k = \<lfloor>double (s * sampleRate b)\<rfloor> + int i
                   in if 0 \<le> k \<and> k < int (blength b) then channelData b ! c ! nat k else 0)))) \<and>
         (\<lfloor>double (e * sampleRate b)\<rfloor> \<le> \<lfloor>double (s * sampleRate b)\<rfloor> \<longrightarrow>
          trimAudio this b s e = Inl (DOMException ''NotSupportedError''))"
proof (intro conjI impI)
  assume pos: "\<lfloor>double (s * sampleRate b)\<rfloor> < \<lfloor>double (e * sampleRate b)\<rfloor>"
  have lens: "\<And>c. c < numberOfChannels b \<Longrightarrow> length (channelData b ! c) = blength b"
    using assms(2) by (simp add: wf_buffer_def list_all_length)
  show "\<exists>out. trimAudio this b s e = Inr out \<and> wf_buffer out \<and>
             numberOfChannels out = numberOfChannels b \<and> sampleRate out = sampleRate b \<and>
             int (blength out) = \<lfloor>double (e * sampleRate b)\<rfloor> - \<lfloor>double (s * sampleRate b)\<rfloor> \<and>
             (\<forall>c < numberOfChannels b. \<forall>i < blength out.
                channelData out ! c ! i =
                  (let k = \<lfloor>double (s * sampleRate b)\<rfloor> + int i
                   in if 0 \<le> k \<and> k < int (blength b) then channelData b ! c ! nat k else 0))"
    using assms(2) pos lens
    by (simp add: trimAudio_closed [OF assms pos] wf_buffer_def list_all_length
        or_zero_f32_get Let_def)
next
  assume "\<lfloor>double (e * sampleRate b)\<rfloor> \<le> \<lfloor>double (s * sampleRate b)\<rfloor>"
  then show "trimAudio this b s e = Inl (DOMException ''NotSupportedError'')"
    using assms(1) by (rule trimAudio_empty_range [rotated])
qed

text \<open>At 8000 Hz, from 1/4096 s (frame 1.953125) to 7/8192 s (frame 6.8359375) of a
  buffer of 4 frames: frames 1 to 5, the last two of them past the end of the source.\<close>

theorem trimAudio_range_witness:
  "audioContext \<lparr>audioContext = Some Running\<rparr> \<noteq> None \<and>
   wf_buffer \<lparr>numberOfChannels = 1, blength = 4, sampleRate = 8000,
              channelData = [[1/2, 1/4, - 1/8, 1/16]]\<rparr> \<and>
   (\<exists>out. trimAudio \<lparr>audioContext = Some Running\<rparr>
            \<lparr>numberOfChannels = 1, blength = 4, sampleRate = 8000,
             channelData = [[1/2, 1/4, - 1/8, 1/16]]\<rparr> (1/4096) (7/8192) = Inr out \<and>
          blength out = 5 \<and>
          channelData out ! 0 ! 0 = 1/4 \<and> channelData out ! 0 ! 1 = - 1/8 \<and>
          channelData out ! 0 ! 2 = 1/16 \<and> channelData out ! 0 ! 3 = 0 \<and>
          channelData out ! 0 ! 4 = 0) \<and>
   trimAudio \<lparr>audioContext = Some Running\<rparr>
     \<lparr>numberOfChannels = 1, blength = 4, sampleRate = 8000,
      channelData = [[1/2, 1/4, - 1/8, 1/16]]\<rparr> (1/4096) (1/4096) =
     Inl (DOMException ''NotSupportedError'')"
proof -
  let ?p = "\<lparr>audioContext = Some Running\<rparr>"
  let ?b = "\<lparr>numberOfChannels = 1, blength = 4, sampleRate = 8000,
              channelData = [[1/2, 1/4, - 1/8, 1/16 :: real]]\<rparr>"
  have h1: "audioContext ?p \<noteq> None" by simp
  have h2: "wf_buffer ?b" by (simp add: wf_buffer_def)
  have d1: "double (125 / 64) = 125 / 64" by (rule double_dyadic [of _ 6 125]) simp_all
  have d2: "double (875 / 128) = 875 / 128" by (rule double_dyadic [of _ 7 875]) simp_all
  have f: "\<lfloor>double (1/4096 * sampleRate ?b)\<rfloor> = 1" "\<lfloor>double (7/8192 * sampleRate ?b)\<rfloor> = 6"
    by (simp_all add: d1 d2)
  obtain out where out: "trimAudio ?p ?b (1/4096) (7/8192) = Inr out" "int (blength out) = 5"
      "\<forall>i < blength out. channelData out ! 0 ! i =
          (let k = 1 + int i in if 0 \<le> k \<and> k < 4 then [1/2, 1/4, - 1/8, 1/16] ! nat k else 0)"
    using trimAudio_range [OF h1 h2, of "1/4096" "7/8192"] unfolding f by auto
  have n: "blength out = 5" using out(2) by simp
  have "channelData out ! 0 ! 0 = 1/4" "channelData out ! 0 ! 1 = - 1/8"
       "channelData out ! 0 ! 2 = 1/16" "channelData out ! 0 ! 3 = 0" "channelData out ! 0 ! 4 = 0"
    using out(3) unfolding n by (simp_all add: Let_def)
  moreover have "trimAudio ?p ?b (1/4096) (1/4096) = Inl (DOMException ''NotSupportedError'')"
    using trimAudio_range [OF h1 h2, of "1/4096" "1/4096"] by simp
  ultimately show ?thesis using h1 h2 out(1) n by blast
qed

text \<open>The claim as stated fails for an end time after the start time that falls in the
  same sample-frame: the result is an exception, not a buffer of 0 samples.\<close>

theorem trimAudio_short_range_counterexample:
  "(0::real) < 1/100000 \<and>
   trimAudio \<lparr>audioContext = Some Running\<rparr>
     \<lparr>numberOfChannels = 1, blength = 4, sampleRate = 8000,
      channelData = [[1/2, 1/4, - 1/8, 1/16]]\<rparr> 0 (1/100000) =
     Inl (DOMException ''NotSupportedError'')"
proof -
  let ?p = "\<lparr>audioContext = Some Running\<rparr>"
  let ?b = "\<lparr>numberOfChannels = 1, blength = 4, sampleRate = 8000,
              channelData = [[1/2, 1/4, - 1/8, 1/16 :: real]]\<rparr>"
  have d: "double (2 / 25) = 5764607523034235 / 2 ^ 56"
    using double_eval [of "-4" "2 / 25"] by (simp add: pow2_def roundTiesToEven_def)
  have "\<lfloor>5764607523034235 / 2 ^ 56 :: real\<rfloor> = 0" by simp
  then have "\<lfloor>double (2 / 25)\<rfloor> = 0" by (simp only: d)
  then have f1: "\<lfloor>double (1/100000 * sampleRate ?b)\<rfloor> = 0" by simp
  have f0: "\<lfloor>double (0 * sampleRate ?b)\<rfloor> = 0" by (simp add: double_zero)
  have "trimAudio ?p ?b 0 (1/100000) = Inl (DOMException ''NotSupportedError'')"
  proof (rule trimAudio_empty_range)
    show "audioContext ?p \<noteq> None" by simp
    show "\<lfloor>double (1/100000 * sampleRate ?b)\<rfloor> \<le> \<lfloor>double (0 * sampleRate ?b)\<rfloor>"
      unfolding f0 f1 by simp
  qed
  then show ?thesis by simp
qed



section \<open>Normalization\<close>

lemma forEach_pure_fold:
  assumes "\<And>i s. i < n \<Longrightarrow> body i s = Inr (g (xs ! i) s)" and "length xs = n"
  shows "forEach [0..<n] body s0 = Inr (fold g xs s0)"
proof -
  have "\<exists>s'. forEach [0..<n] body s0 = Inr s' \<and> s' = fold g (take n xs) s0"
  proof (rule forEach_upt_invariant [where I = "\<lambda>i s. s = fold g (take i xs) s0"])
    show "s0 = fold g (take 0 xs) s0" by simp
  next
    fix i s assume "i < n" "s = fold g (take i xs) s0"
    then show "\<exists>s'. body i s = Inr s' \<and> s' = fold g (take (Suc i) xs) s0"
      using assms by (simp add: take_Suc_conv_app_nth)
  qed
  then show ?thesis using assms(2) by simp
qed

lemma fold_nth_upt: "fold (\<lambda>i. f (d ! i)) [0..<length d] s = fold f d s"
proof -
  have "fold f (map (\<lambda>i. d ! i) [0..<length d]) s = fold (\<lambda>i. f (d ! i)) [0..<length d] s"
    by (simp add: fold_map comp_def)
  then show ?thesis by (simp add: map_nth)
qed

lemma fold_max_abs:
  fixes d :: "real list"
  shows "p \<le> fold (\<lambda>x p. max p \<bar>x\<bar>) d p \<and>
         (\<forall>x \<in> set d. \<bar>x\<bar> \<le> fold (\<lambda>x p. max p \<bar>x\<bar>) d p) \<and>
         (fold (\<lambda>x p. max p \<bar>x\<bar>) d p = p \<or>
          (\<exists>x \<in> set d. fold (\<lambda>x p. max p \<bar>x\<bar>) d p = \<bar>x\<bar>))"
proof (induction d arbitrary: p)
  case Nil
  show ?case by simp
next
  case (Cons x d)
  show ?case using Cons [of "max p \<bar>x\<bar>"] by (auto simp: max_def)
qed

lemma fold_channels_max_abs:
  fixes chans :: "real list list"
  shows "p \<le> fold (fold (\<lambda>x p. max p \<bar>x\<bar>)) chans p \<and>
         (\<forall>d \<in> set chans. \<forall>x \<in> set d. \<bar>x\<bar> \<le> fold (fold (\<lambda>x p. max p \<bar>x\<bar>)) chans p) \<and>
         (fold (fold (\<lambda>x p. max p \<bar>x\<bar>)) chans p = p \<or>
          (\<exists>d \<in> set chans. \<exists>x \<in> set d. fold (fold (\<lambda>x p. max p \<bar>x\<bar>)) chans p = \<bar>x\<bar>))"
proof (induction chans arbitrary: p)
  case Nil
  show ?case by simp
next
  case (Cons d chans)
  let ?q = "fold (\<lambda>x p. max p \<bar>x\<bar>) d p"
  let ?r = "fold (fold (\<lambda>x p. max p \<bar>x\<bar>)) chans ?q"
  have q: "p \<le> ?q" "\<forall>x \<in> set d. \<bar>x\<bar> \<le> ?q" "?q = p \<or> (\<exists>x \<in> set d. ?q = \<bar>x\<bar>)"
    using fold_max_abs [where p = p and d = d] by auto
  have r: "?q \<le> ?r" "\<forall>d \<in> set chans. \<forall>x \<in> set d. \<bar>x\<bar> \<le> ?r"
      "?r = ?q \<or> (\<exists>d \<in> set chans. \<exists>x \<in> set d. ?r = \<bar>x\<bar>)"
    using Cons [of ?q] by auto
  have 1: "p \<le> ?r" using q(1) r(1) by (rule order_trans)
  have 2: "\<forall>x \<in> set d. \<bar>x\<bar> \<le> ?r" using q(2) r(1) by (auto intro: order_trans)
  have 3: "?r = p \<or> (\<exists>x \<in> set d. ?r = \<bar>x\<bar>) \<or> (\<exists>d \<in> set chans. \<exists>x \<in> set d. ?r = \<bar>x\<bar>)"
    using q(3) r(3) by auto
  show ?case using 1 2 3 r(2) by auto
qed

text \<open>The peak found by the loops of \<open>normalizeAudio\<close>.\<close>

lemma normalizeAudio_peak_loop:
  assumes wf: "wf_buffer b"
  shows "forEach [0..<numberOfChannels b] (normalizeAudio_channel b) 0 =
           Inr (fold (fold (\<lambda>x p. max p \<bar>x\<bar>)) (channelData b) 0)"
proof (rule forEach_pure_fold)
  show "length (channelData b) = numberOfChannels b"
    using wf by (simp add: wf_buffer_def)
next
  fix i s assume "i < numberOfChannels b"
  then show "normalizeAudio_channel b i s = Inr (fold (\<lambda>x p. max p \<bar>x\<bar>) (channelData b ! i) s)"
    by (simp add: normalizeAudio_channel_def getChannelData_def
        fold_nth_upt [where f = "\<lambda>x p. max p \<bar>x\<bar>"])
qed

lemma wf_buffer_samples:
  assumes "wf_buffer b"
  shows "(\<exists>d \<in> set (channelData b). \<exists>x \<in> set d. P x) \<longleftrightarrow>
         (\<exists>c < numberOfChannels b. \<exists>i < blength b. P (channelData b ! c ! i))"
    and "(\<forall>d \<in> set (channelData b). \<forall>x \<in> set d. P x) \<longleftrightarrow>
         (\<forall>c < numberOfChannels b. \<forall>i < blength b. P (channelData b ! c ! i))"
  using assms unfolding wf_buffer_def list_all_length all_set_conv_all_nth
  by (metis in_set_conv_nth)+


lemma normalizeAudio_closed:
  assumes ctx: "audioContext this \<noteq> None" and wf: "wf_buffer b"
  shows "normalizeAudio this b =
     (let peak = fold (fold (\<lambda>x p. max p \<bar>x\<bar>)) (channelData b) 0
      in if peak = 0 then Inr b
         else Inr (b\<lparr>channelData := map (map (\<lambda>x. x * (95 / 100 / peak))) (channelData b)\<rparr>))"
  using ctx
  by (simp add: normalizeAudio_def normalizeAudio_peak_loop [OF wf]
      changeVolume_closed [OF ctx wf] Let_def)

lemma wf_buffer_scaled:
  "wf_buffer b \<Longrightarrow> wf_buffer (b\<lparr>channelData := map (map f) (channelData b)\<rparr>)"
  by (simp add: wf_buffer_def list_all_length)

lemma peak_of_normalized:
  fixes chans :: "real list list"
  assumes le: "\<forall>d \<in> set chans. \<forall>x \<in> set d. \<bar>x\<bar> \<le> m"
    and hit: "\<exists>d \<in> set chans. \<exists>x \<in> set d. \<bar>x\<bar> = m"
  shows "fold (fold (\<lambda>x p. max p \<bar>x\<bar>)) chans 0 = m"
proof -
  let ?P = "fold (fold (\<lambda>x p. max p \<bar>x\<bar>)) chans 0"
  note P = fold_channels_max_abs [where chans = chans and p = 0]
  from hit obtain d x where dx: "d \<in> set chans" "x \<in> set d" "\<bar>x\<bar> = m" by blast
  then have "m \<le> ?P" using P by blast
  moreover have "0 \<le> m" using dx(3) by auto
  moreover have "?P = 0 \<or> ?P \<le> m" using P le by fastforce
  ultimately show ?thesis by linarith
qed



text \<open>
  C6. With an initialised audio context, \<open>normalizeAudio\<close> returns the buffer itself when
  every sample is 0; otherwise it returns the buffer scaled by one positive gain, such
  that the largest absolute sample over all channels is exactly 0.95. Normalizing the
  result again returns it unchanged (in exact arithmetic the second gain is 1).
\<close>

theorem normalizeAudio_peak:
  assumes ctx: "audioContext this \<noteq> None" and wf: "wf_buffer b"
  shows "\<exists>out. normalizeAudio this b = Inr out \<and> wf_buffer out \<and>
           ((\<forall>c < numberOfChannels b. \<forall>i < blength b. channelData b ! c ! i = 0) \<longrightarrow> out = b) \<and>
           ((\<exists>c < numberOfChannels b. \<exists>i < blength b. channelData b ! c ! i \<noteq> 0) \<longrightarrow>
              (\<exists>g > 0. \<forall>c < numberOfChannels b. \<forall>i < blength b.
                 channelData out ! c ! i = channelData b ! c ! i * g) \<and>
              (\<forall>c < numberOfChannels b. \<forall>i < blength b. \<bar>channelData out ! c ! i\<bar> \<le> 95 / 100) \<and>
              (\<exists>c < numberOfChannels b. \<exists>i < blength b. \<bar>channelData out ! c ! i\<bar> = 95 / 100)) \<and>
           normalizeAudio this out = Inr out"
proof -
  let ?P = "fold (fold (\<lambda>x p. max p \<bar>x\<bar>)) (channelData b) 0"
  have P: "0 \<le> ?P" "\<forall>d \<in> set (channelData b). \<forall>x \<in> set d. \<bar>x\<bar> \<le> ?P"
      "?P = 0 \<or> (\<exists>d \<in> set (channelData b). \<exists>x \<in> set d. ?P = \<bar>x\<bar>)"
    using fold_channels_max_abs [where chans = "channelData b" and p = 0] by auto
  show ?thesis
  proof (cases "?P = 0")
    case True
    have run: "normalizeAudio this b = Inr b"
      using True by (simp add: normalizeAudio_closed [OF ctx wf])
    have "\<forall>d \<in> set (channelData b). \<forall>x \<in> set d. x = 0"
      using P(2) True by fastforce
    then have zero: "\<forall>c < numberOfChannels b. \<forall>i < blength b. channelData b ! c ! i = 0"
      using wf_buffer_samples(2) [OF wf, of "\<lambda>x. x = 0"] by simp
    show ?thesis using run wf zero by auto
  next
    case False
    define g where "g = 95 / 100 / ?P"
    define out where "out = b\<lparr>channelData := map (map (\<lambda>x. x * g)) (channelData b)\<rparr>"
    have Ppos: "0 < ?P" using P(1) False by simp
    have gpos: "0 < g" using Ppos by (simp add: g_def)
    have gP: "?P * g = 95 / 100" using Ppos by (simp add: g_def)
    have run: "normalizeAudio this b = Inr out"
      using False by (simp add: normalizeAudio_closed [OF ctx wf] out_def g_def)
    have wfo: "wf_buffer out" unfolding out_def using wf by (rule wf_buffer_scaled)
    have shape: "numberOfChannels out = numberOfChannels b" "blength out = blength b"
      by (simp_all add: out_def)
    have len: "length (channelData b) = numberOfChannels b"
      and lens: "\<And>c. c < numberOfChannels b \<Longrightarrow> length (channelData b ! c) = blength b"
      using wf by (simp_all add: wf_buffer_def list_all_length)
    have pt: "\<forall>c < numberOfChannels b. \<forall>i < blength b.
                 channelData out ! c ! i = channelData b ! c ! i * g"
      using len lens by (simp add: out_def)
    have le_b: "\<forall>c < numberOfChannels b. \<forall>i < blength b. \<bar>channelData b ! c ! i\<bar> \<le> ?P"
      using P(2) wf_buffer_samples(2) [OF wf, of "\<lambda>x. \<bar>x\<bar> \<le> ?P"] by simp
    have "\<exists>d \<in> set (channelData b). \<exists>x \<in> set d. \<bar>x\<bar> = ?P"
      using P(3) False by metis
    then have hit_b: "\<exists>c < numberOfChannels b. \<exists>i < blength b. \<bar>channelData b ! c ! i\<bar> = ?P"
      by (rule wf_buffer_samples(1) [OF wf, of "\<lambda>x. \<bar>x\<bar> = ?P", THEN iffD1])
    have le_o: "\<forall>c < numberOfChannels b. \<forall>i < blength b. \<bar>channelData out ! c ! i\<bar> \<le> 95 / 100"
    proof (intro allI impI)
      fix c i assume ci: "c < numberOfChannels b" "i < blength b"
      have "\<bar>channelData b ! c ! i\<bar> * g \<le> ?P * g"
        using le_b ci gpos by (simp add: mult_right_mono)
      then show "\<bar>channelData out ! c ! i\<bar> \<le> 95 / 100"
        using pt ci gpos gP by (simp add: abs_mult)
    qed
    have hit_o: "\<exists>c < numberOfChannels b. \<exists>i < blength b. \<bar>channelData out ! c ! i\<bar> = 95 / 100"
    proof -
      from hit_b obtain c i where ci: "c < numberOfChannels b" "i < blength b"
          "\<bar>channelData b ! c ! i\<bar> = ?P" by blast
      have "\<bar>channelData out ! c ! i\<bar> = ?P * g"
        using pt ci gpos by (simp add: abs_mult)
      then show ?thesis using ci gP by auto
    qed
    have peak_o: "fold (fold (\<lambda>x p. max p \<bar>x\<bar>)) (channelData out) 0 = 95 / 100"
    proof (rule peak_of_normalized)
      show "\<forall>d \<in> set (channelData out). \<forall>x \<in> set d. \<bar>x\<bar> \<le> 95 / 100"
        using le_o wf_buffer_samples(2) [OF wfo, of "\<lambda>x. \<bar>x\<bar> \<le> 95 / 100"] shape by simp
      show "\<exists>d \<in> set (channelData out). \<exists>x \<in> set d. \<bar>x\<bar> = 95 / 100"
        using hit_o wf_buffer_samples(1) [OF wfo, of "\<lambda>x. \<bar>x\<bar> = 95 / 100"] shape by simp
    qed
    have again: "normalizeAudio this out = Inr out"
      by (simp add: normalizeAudio_closed [OF ctx wfo] peak_o)
    have nz: "\<not> (\<forall>c < numberOfChannels b. \<forall>i < blength b. channelData b ! c ! i = 0)"
      using hit_b Ppos by fastforce
    show ?thesis
      using run wfo pt le_o hit_o again gpos nz by (intro exI [of _ out]) blast
  qed
qed

theorem normalizeAudio_peak_witness:
  "audioContext \<lparr>audioContext = Some Running\<rparr> \<noteq> None \<and>
   wf_buffer \<lparr>numberOfChannels = 2, blength = 2, sampleRate = 48000,
              channelData = [[1/4, - 1/2], [0, 1/8]]\<rparr> \<and>
   (\<exists>out. normalizeAudio \<lparr>audioContext = Some Running\<rparr>
            \<lparr>numberOfChannels = 2, blength = 2, sampleRate = 48000,
             channelData = [[1/4, - 1/2], [0, 1/8]]\<rparr> = Inr out \<and>
          (\<exists>c < 2. \<exists>i < 2. \<bar>channelData out ! c ! i\<bar> = 95 / 100) \<and>
          normalizeAudio \<lparr>audioContext = Some Running\<rparr> out = Inr out)"
proof -
  let ?p = "\<lparr>audioContext = Some Running\<rparr>"
  let ?b = "\<lparr>numberOfChannels = 2, blength = 2, sampleRate = 48000,
              channelData = [[1/4, - 1/2], [0, 1/8 :: real]]\<rparr>"
  have h1: "audioContext ?p \<noteq> None" by simp
  have h2: "wf_buffer ?b" by (simp add: wf_buffer_def)
  have nz: "\<exists>c < numberOfChannels ?b. \<exists>i < blength ?b. channelData ?b ! c ! i \<noteq> 0"
    by (rule exI [of _ 0], simp, rule exI [of _ 0], simp)
  show ?thesis
    using normalizeAudio_peak [OF h1 h2] nz h1 h2 by simp blast
qed



section \<open>Mixing\<close>

lemma f32_add_length [simp]: "length (f32_add a k v) = length a"
  by (simp add: f32_add_def f32_get_def f32_set_def)

lemma f32_add_nth:
  "j < length a \<Longrightarrow> f32_add a k v ! j = a ! j + (if k = int j then v else 0)"
  by (auto simp: f32_add_def f32_get_def f32_set_def nth_list_update)

lemma mix_loop_length [simp]: "length (mix_loop src v st i m) = length m"
proof (induction src v st i m rule: mix_loop.induct)
  case (1 src v st i m)
  note unf = mix_loop.simps [of src v st i m]
  show ?case
  proof (cases "i < length src \<and> st + int i < int (length m)")
    case True
    then show ?thesis using "1.IH" by (simp add: unf)
  next
    case False
    then show ?thesis using unf by auto
  qed
qed

lemma mix_loop_nth:
  "j < length m \<Longrightarrow>
   mix_loop src v st i m ! j =
     m ! j + (if int i \<le> int j - st \<and> int j - st < int (length src)
              then src ! nat (int j - st) * v else 0)"
proof (induction src v st i m rule: mix_loop.induct)
  case (1 src v st i m)
  note unf = mix_loop.simps [of src v st i m]
  show ?case
  proof (cases "i < length src \<and> st + int i < int (length m)")
    case True
    let ?m' = "f32_add m (st + int i) (src ! i * v)"
    have "mix_loop src v st i m ! j = mix_loop src v st (Suc i) ?m' ! j"
      using True by (simp add: unf)
    also have "\<dots> = ?m' ! j + (if int (Suc i) \<le> int j - st \<and> int j - st < int (length src)
              then src ! nat (int j - st) * v else 0)"
      using "1.IH" [OF True] "1.prems" by simp
    also have "?m' ! j = m ! j + (if st + int i = int j then src ! i * v else 0)"
      using "1.prems" by (rule f32_add_nth)
    finally have eq: "mix_loop src v st i m ! j =
        m ! j + (if st + int i = int j then src ! i * v else 0) +
        (if int (Suc i) \<le> int j - st \<and> int j - st < int (length src)
              then src ! nat (int j - st) * v else 0)" .
    show ?thesis
    proof (cases "st + int i = int j")
      case here: True
      then have "nat (int j - st) = i" by simp
      then show ?thesis using eq here True by simp
    next
      case False
      then show ?thesis using eq by auto
    qed
  next
    case False
    have "mix_loop src v st i m = m"
      using False unf by auto
    moreover have "\<not> (int i \<le> int j - st \<and> int j - st < int (length src))"
      using False "1.prems" by auto
    ultimately show ?thesis by auto
  qed
qed


lemma mix_entry_run:
  assumes "wf_buffer (fst entry)"
  shows "mix_entry rate c entry m =
     Inr (mix_loop (channelData (fst entry) ! min c (numberOfChannels (fst entry) - 1))
            (snd (snd entry)) \<lfloor>double (fst (snd entry) * rate)\<rfloor> 0 m)"
proof -
  obtain b st v where e: "entry = (b, st, v)" by (cases entry)
  have pos: "0 < numberOfChannels b" using assms by (simp add: e wf_buffer_def)
  have idx: "nat (min (int c) (int (numberOfChannels b) - 1)) = min c (numberOfChannels b - 1)"
    using pos by (cases "c < numberOfChannels b") (auto simp: min_def)
  have rng: "0 \<le> min (int c) (int (numberOfChannels b) - 1)"
      "min (int c) (int (numberOfChannels b) - 1) < int (numberOfChannels b)"
    using pos by auto
  show ?thesis
    using rng by (simp add: e mix_entry_def getChannelData_def idx Let_def)
qed

lemma mix_entry_nth:
  assumes "wf_buffer (fst entry)" and "j < length m"
  shows "\<exists>m'. mix_entry rate c entry m = Inr m' \<and> length m' = length m \<and>
           m' ! j = m ! j + mix_contribution rate c j entry"
proof -
  obtain b st v where e: "entry = (b, st, v)" by (cases entry)
  have run: "mix_entry rate c (b, st, v) m =
      Inr (mix_loop (channelData b ! min c (numberOfChannels b - 1)) v \<lfloor>double (st * rate)\<rfloor> 0 m)"
    using mix_entry_run [of "(b, st, v)" rate c m] assms(1) by (simp add: e)
  show ?thesis
    using assms(2) by (simp add: e run mix_loop_nth mix_contribution_def Let_def)
qed

lemma forEach_mix_entry:
  assumes "\<forall>e \<in> set buffers. wf_buffer (fst e)"
  shows "\<exists>m'. forEach buffers (mix_entry rate c) m = Inr m' \<and> length m' = length m \<and>
           (\<forall>j < length m. m' ! j = m ! j + (\<Sum>e\<leftarrow>buffers. mix_contribution rate c j e))"
  using assms
proof (induction buffers arbitrary: m)
  case Nil
  then show ?case by simp
next
  case (Cons e buffers)
  obtain m1 where m1: "mix_entry rate c e m = Inr m1" "length m1 = length m"
    using mix_entry_run [of e rate c m] Cons.prems by simp
  have n1: "\<forall>j < length m. m1 ! j = m ! j + mix_contribution rate c j e"
  proof (intro allI impI)
    fix j assume "j < length m"
    then show "m1 ! j = m ! j + mix_contribution rate c j e"
      using mix_entry_nth [of e j m rate c] Cons.prems m1 by auto
  qed
  obtain m2 where m2: "forEach buffers (mix_entry rate c) m1 = Inr m2" "length m2 = length m1"
      "\<forall>j < length m1. m2 ! j = m1 ! j + (\<Sum>e\<leftarrow>buffers. mix_contribution rate c j e)"
    using Cons.IH [of m1] Cons.prems by auto
  show ?case
    using m1 m2 n1 by (simp add: add.assoc)
qed


lemma mix_channel_run:
  assumes wf: "\<forall>e \<in> set buffers. wf_buffer (fst e)"
    and c: "c < numberOfChannels s" and z: "channelData s ! c = replicate n 0"
  shows "mix_channel buffers rate c s =
     Inr (setChannelData s c
            (map (\<lambda>j. \<Sum>e\<leftarrow>buffers. mix_contribution rate c j e) [0..<n]))"
proof -
  obtain m' where m': "forEach buffers (mix_entry rate c) (replicate n 0) = Inr m'"
      "length m' = n"
      "\<forall>j < n. m' ! j = replicate n 0 ! j + (\<Sum>e\<leftarrow>buffers. mix_contribution rate c j e)"
    using forEach_mix_entry [OF wf, of rate c "replicate n 0"] by auto
  have "m' = map (\<lambda>j. \<Sum>e\<leftarrow>buffers. mix_contribution rate c j e) [0..<n]"
    using m'(2,3) by (intro nth_equalityI) simp_all
  then show ?thesis
    using c by (simp add: mix_channel_def getChannelData_def z m'(1))
qed

lemma fold_max_Max:
  fixes a :: "'a :: linorder"
  shows "fold max xs a = Max (insert a (set xs))"
  using Max.set_eq_fold [of a xs] by simp

lemma mix_channels_Max:
  fixes buffers :: "MixEntry list"
  assumes "buffers \<noteq> []"
  shows "fold max (map (\<lambda>b. numberOfChannels (fst b)) buffers) 0 =
           Max ((\<lambda>b. numberOfChannels (fst b)) ` set buffers)"
proof -
  let ?A = "(\<lambda>b. numberOfChannels (fst b)) ` set buffers"
  have "finite ?A" "?A \<noteq> {}" using assms by simp_all
  then have "Max (insert 0 ?A) = max 0 (Max ?A)" by (rule Max_insert)
  then show ?thesis by (simp add: fold_max_Max)
qed



lemma mix_totalLength_Max:
  fixes buffers :: "MixEntry list"
  assumes "buffers \<noteq> []"
  shows "fold (\<lambda>(buffer, startTime, volume) totalLength.
                 max totalLength (double (startTime + buffer_duration buffer))) buffers 0 =
         max 0 (Max ((\<lambda>(buffer, startTime, volume). double (startTime + buffer_duration buffer))
                       ` set buffers))"
proof -
  let ?f = "\<lambda>(buffer :: AudioBuffer, startTime :: real, volume :: real).
              double (startTime + buffer_duration buffer)"
  let ?A = "?f ` set buffers"
  have "fold (\<lambda>(buffer, startTime, volume) totalLength.
                 max totalLength (double (startTime + buffer_duration buffer))) buffers 0 =
        fold max (map ?f buffers) 0"
  proof -
    have "(\<lambda>(buffer :: AudioBuffer, startTime :: real, volume :: real) totalLength.
             max totalLength (double (startTime + buffer_duration buffer))) = (\<lambda>x. max (?f x))"
      by (intro ext) (simp add: case_prod_unfold max.commute Let_def)
    then show ?thesis by (simp add: fold_map comp_def)
  qed
  also have "\<dots> = Max (insert 0 ?A)" by (simp add: fold_max_Max)
  also have "\<dots> = max 0 (Max ?A)"
    using assms by (intro Max_insert) simp_all
  finally show ?thesis .
qed

lemma mixAudioBuffers_closed:
  assumes ctx: "audioContext this \<noteq> None" and ne: "buffers \<noteq> []"
    and wf: "\<forall>e \<in> set buffers. wf_buffer (fst e)"
    and len: "1 \<le> \<lfloor>double (Max ((\<lambda>(buffer, startTime, volume).
                                   double (startTime + buffer_duration buffer)) ` set buffers)
                           * sampleRate (fst (hd buffers)))\<rfloor>"
  shows "mixAudioBuffers this buffers =
     Inr \<lparr>numberOfChannels = Max ((\<lambda>b. numberOfChannels (fst b)) ` set buffers),
          blength = nat \<lfloor>double (Max ((\<lambda>(buffer, startTime, volume).
                                   double (startTime + buffer_duration buffer)) ` set buffers)
                           * sampleRate (fst (hd buffers)))\<rfloor>,
          sampleRate = sampleRate (fst (hd buffers)),
          channelData =
            map (\<lambda>c. map (\<lambda>j. \<Sum>e\<leftarrow>buffers. mix_contribution (sampleRate (fst (hd buffers))) c j e)
                        [0..<nat \<lfloor>double (Max ((\<lambda>(buffer, startTime, volume).
                                   double (startTime + buffer_duration buffer)) ` set buffers)
                           * sampleRate (fst (hd buffers)))\<rfloor>])
                [0..<Max ((\<lambda>b. numberOfChannels (fst b)) ` set buffers)]\<rparr>"
proof -
  let ?M = "Max ((\<lambda>(buffer, startTime, volume). double (startTime + buffer_duration buffer))
                   ` set buffers)"
  let ?rate = "sampleRate (fst (hd buffers))"
  let ?C = "Max ((\<lambda>b. numberOfChannels (fst b)) ` set buffers)"
  let ?n = "nat \<lfloor>double (?M * ?rate)\<rfloor>"
  have hd_in: "hd buffers \<in> set buffers" using ne by simp
  have rate: "0 < ?rate" using wf hd_in by (simp add: wf_buffer_def)
  have Mpos: "0 < ?M"
  proof (rule ccontr)
    assume "\<not> 0 < ?M"
    then have "?M * ?rate \<le> 0" using rate by (simp add: mult_le_0_iff)
    then have "double (?M * ?rate) \<le> 0" by (rule double_nonpos)
    then have "\<lfloor>double (?M * ?rate)\<rfloor> \<le> 0" by (simp add: floor_le_zero)
    then show False using len by simp
  qed
  have total: "fold (\<lambda>(buffer, startTime, volume) totalLength.
                 max totalLength (double (startTime + buffer_duration buffer))) buffers 0 = ?M"
    using Mpos by (simp add: mix_totalLength_Max [OF ne])
  have "numberOfChannels (fst (hd buffers)) \<le> ?C"
    using hd_in by (intro Max_ge) simp_all
  moreover have "0 < numberOfChannels (fst (hd buffers))"
    using wf hd_in by (simp add: wf_buffer_def)
  ultimately have Cpos: "0 < ?C" by linarith
  define p0 where "p0 = \<lparr>numberOfChannels = ?C, blength = ?n, sampleRate = ?rate,
                channelData = replicate ?C (replicate ?n (0::real))\<rparr>"
  have cb: "createBuffer ?C \<lfloor>double (?M * ?rate)\<rfloor> ?rate = Inr p0"
    using Cpos rate len by (simp add: createBuffer_def p0_def)
  have "forEach [0..<?C] (mix_channel buffers ?rate) p0 =
      Inr (p0\<lparr>channelData := map (\<lambda>c. map (\<lambda>j. \<Sum>e\<leftarrow>buffers. mix_contribution ?rate c j e) [0..<?n])
                                  [0..<?C]\<rparr>)"
    by (rule fill_channels [where z = "replicate ?n 0"])
       (simp_all add: mix_channel_run [OF wf] p0_def)
  then show ?thesis
    using ctx ne
    by (simp add: mixAudioBuffers_def total mix_channels_Max [OF ne] cb Let_def) (simp add: p0_def)
qed




text \<open>The rounding costs a frame: one buffer of 15 frames at 44100 Hz from time 0 mixes
  to 14 frames, its duration times the rate being 14.999999999999998 as a double.\<close>

lemma mixAudioBuffers_rounding_example:
  "\<exists>out. mixAudioBuffers \<lparr>audioContext = Some Running\<rparr>
           [(\<lparr>numberOfChannels = 1, blength = 15, sampleRate = 44100,
              channelData = [replicate 15 (1/2)]\<rparr>, 0, 1)] = Inr out \<and>
         blength out = 14"
proof -
  let ?p = "\<lparr>audioContext = Some Running\<rparr>"
  let ?a = "\<lparr>numberOfChannels = 1, blength = 15, sampleRate = 44100,
              channelData = [replicate 15 (1/2 :: real)]\<rparr>"
  let ?bs = "[(?a, 0, 1)] :: MixEntry list"
  have a: "double (15 / 44100) = 6274402746159711 / 2 ^ 64"
    using double_eval [of "-12" "15 / 44100"]
    by (simp add: pow2_def roundTiesToEven_def)
  have b: "double (6274402746159711 / 2 ^ 64) = 6274402746159711 / 2 ^ 64"
    by (rule double_dyadic [of _ 64 6274402746159711]) simp_all
  have c: "double (6274402746159711 / 2 ^ 64 * 44100) = 8444249301319679 / 2 ^ 49"
    using double_eval [of 3 "6274402746159711 / 2 ^ 64 * 44100"]
    by (simp add: pow2_def roundTiesToEven_def)
  have dur: "buffer_duration ?a = 6274402746159711 / 2 ^ 64"
    using a by (simp add: buffer_duration_def)
  have "Max ((\<lambda>(buffer, startTime, volume). double (startTime + buffer_duration buffer))
                  ` set ?bs) = double (0 + buffer_duration ?a)"
    by simp
  also have "\<dots> = 6274402746159711 / 2 ^ 64"
    by (simp only: dur add_0 b)
  finally have M: "Max ((\<lambda>(buffer, startTime, volume). double (startTime + buffer_duration buffer))
                  ` set ?bs) = 6274402746159711 / 2 ^ 64" .
  have r: "sampleRate (fst (hd ?bs)) = 44100" by simp
  have "\<lfloor>8444249301319679 / 2 ^ 49 :: real\<rfloor> = 14" by simp
  then have fl: "\<lfloor>double (Max ((\<lambda>(buffer, startTime, volume).
             double (startTime + buffer_duration buffer)) ` set ?bs) * sampleRate (fst (hd ?bs)))\<rfloor> = 14"
    by (simp only: M r c)
  have h1: "audioContext ?p \<noteq> None" by simp
  have h2: "?bs \<noteq> []" by simp
  have h3: "\<forall>e \<in> set ?bs. wf_buffer (fst e)" by (simp add: wf_buffer_def)
  have h4: "1 \<le> \<lfloor>double (Max ((\<lambda>(buffer, startTime, volume).
             double (startTime + buffer_duration buffer)) ` set ?bs) * sampleRate (fst (hd ?bs)))\<rfloor>"
    unfolding fl by simp
  show ?thesis
    unfolding mixAudioBuffers_closed [OF h1 h2 h3 h4] fl by simp
qed





text \<open>
  C3 (as amended). Mixing the empty list of buffers raises the error
  \<^verbatim>\<open>'Invalid audio context or no buffers provided'\<close>, whatever the audio context; no
  buffer is returned.
\<close>

theorem mixAudioBuffers_empty_raises:
  "mixAudioBuffers this [] = Inl (Error ''Invalid audio context or no buffers provided'')"
  by (simp add: mixAudioBuffers_def)

text \<open>The claim as stated (an empty buffer is returned) fails with an initialised context.\<close>

theorem mixAudioBuffers_empty_counterexample:
  "mixAudioBuffers \<lparr>audioContext = Some Running\<rparr> [] \<noteq>
     Inr \<lparr>numberOfChannels = 0, blength = 0, sampleRate = 48000, channelData = []\<rparr> \<and>
   mixAudioBuffers \<lparr>audioContext = Some Running\<rparr> [] =
     Inl (Error ''Invalid audio context or no buffers provided'')"
  by (simp add: mixAudioBuffers_def)





section \<open>The audio pipeline on two overlapping clips\<close>

lemma processAudioClip_untrimmed:
  assumes ctx: "audioContext this \<noteq> None"
    and dec: "decodeAudioData platform (clip_file clip) = Inr b" and wf: "wf_buffer b"
    and notrim: "trimStart clip = 0" "trimEnd clip = clip_duration clip"
    and fx: "effects clip = []" and vol: "volume clip \<noteq> 0"
  shows "processAudioClip platform this clip acc =
     Inr (acc @ [(if volume clip = 1 then b
                  else b\<lparr>channelData := map (map (\<lambda>x. x * volume clip)) (channelData b)\<rparr>,
                  startTime clip, volume clip)])"
  using ctx vol
  by (simp add: processAudioClip_def loadAudioFile_def dec notrim fx or_default_def
      changeVolume_closed [OF ctx wf])


text \<open>
  C4 (what the code does). Two audio clips without effects and without trimming, two
  seconds of source each at the same integral sample rate \<open>sr\<close> (one whose multiples up to
  \<open>3 * sr\<close> are doubles, as every sample rate of the platform is): clip \<open>a\<close> at volume 1
  from 0 s, clip \<open>b\<close> at volume 1/2 from 1 s. The pipeline of \<open>processAudioClips\<close> scales
  \<open>b\<close> by its volume (\<open>changeVolume\<close>) and hands the same volume to \<open>mixAudioBuffers\<close>,
  which scales by it again: the mixed sample at 1.5 s is the sample of \<open>a\<close> at 1.5 s plus
  1/4 (not 1/2) of the sample of \<open>b\<close> at 0.5 s.
\<close>

theorem processAudioClips_volume_twice:
  assumes ctx: "audioContext this \<noteq> None"
    and decA: "decodeAudioData platform (clip_file a) = Inr A"
    and decB: "decodeAudioData platform (clip_file b) = Inr B"
    and wfA: "wf_buffer A" and wfB: "wf_buffer B"
    and sr: "0 < sr" "sampleRate A = real sr" "sampleRate B = real sr"
    and dbl: "3 * sr < 2 ^ 53"
    and len: "blength A = 2 * sr" "blength B = 2 * sr"
    and a: "startTime a = 0" "trimStart a = 0" "trimEnd a = clip_duration a"
           "volume a = 1" "effects a = []"
    and b: "startTime b = 1" "trimStart b = 0" "trimEnd b = clip_duration b"
           "volume b = 1 / 2" "effects b = []"
  shows "\<exists>mixed. processAudioClips_mixed platform this [a, b] = Inr mixed \<and>
           blength mixed = 3 * sr \<and>
           numberOfChannels mixed = max (numberOfChannels A) (numberOfChannels B) \<and>
           (\<forall>c < numberOfChannels mixed.
              channelData mixed ! c ! (3 * sr div 2) =
                channelData A ! min c (numberOfChannels A - 1) ! (3 * sr div 2) +
                1 / 4 * channelData B ! min c (numberOfChannels B - 1) ! (sr div 2))"
proof -
  define B' where "B' = B\<lparr>channelData := map (map (\<lambda>x. x * (1 / 2))) (channelData B)\<rparr>"
  let ?bs = "[(A, 0, 1), (B', 1, 1 / 2)] :: MixEntry list"
  have wfB': "wf_buffer B'" unfolding B'_def using wfB by (rule wf_buffer_scaled)
  have pa: "processAudioClip platform this a [] = Inr [(A, 0, 1)]"
    using processAudioClip_untrimmed [OF ctx decA wfA a(2,3,5), of "[]"] a(1,4) by simp
  have pb: "processAudioClip platform this b [(A, 0, 1)] = Inr ?bs"
    using processAudioClip_untrimmed [OF ctx decB wfB b(2,3,5), of "[(A, 0, 1)]"] b(1,4)
    by (simp add: B'_def)
  have bufs: "processAudioClips_buffers platform this [a, b] = Inr ?bs"
    by (simp add: processAudioClips_buffers_def pa pb)
  have d2: "double 2 = 2" using double_of_int [of 2] by simp
  have d3: "double 3 = 3" using double_of_int [of 3] by simp
  have dsr: "double (real sr) = real sr"
    using dbl by (intro double_of_nat) simp
  have d3sr: "double (3 * real sr) = real (3 * sr)"
    using double_of_nat [OF dbl] by simp
  have durA: "buffer_duration A = 2" and durB: "buffer_duration B' = 2"
    using sr len by (simp_all add: buffer_duration_def B'_def d2)
  have M: "Max ((\<lambda>(buffer, startTime, volume). double (startTime + buffer_duration buffer))
                  ` set ?bs) = 3"
    by (simp add: durA durB d2 d3)
  have fl: "\<lfloor>double (3 * real sr)\<rfloor> = int (3 * sr)"
    unfolding d3sr by (rule floor_of_nat)
  have h2: "?bs \<noteq> []" by simp
  have h3: "\<forall>e \<in> set ?bs. wf_buffer (fst e)" using wfA wfB' by simp
  have h4: "1 \<le> \<lfloor>double (Max ((\<lambda>(buffer, startTime, volume).
                     double (startTime + buffer_duration buffer)) ` set ?bs)
                   * sampleRate (fst (hd ?bs)))\<rfloor>"
    unfolding M using sr by (simp add: fl)
  let ?j = "3 * sr div 2"
  have j: "?j < 3 * sr" "?j < 2 * sr" "sr \<le> ?j" "?j - sr = sr div 2"
    using sr(1) by auto
  have lenA: "\<And>c. c < numberOfChannels A \<Longrightarrow> length (channelData A ! c) = 2 * sr"
    and lenB: "\<And>c. c < numberOfChannels B \<Longrightarrow> length (channelData B ! c) = 2 * sr"
    and nA: "0 < numberOfChannels A" "length (channelData A) = numberOfChannels A"
    and nB: "0 < numberOfChannels B" "length (channelData B) = numberOfChannels B"
    using wfA wfB len by (simp_all add: wf_buffer_def list_all_length)
  have cA: "\<And>c. mix_contribution (real sr) c ?j (A, 0, 1) =
       channelData A ! min c (numberOfChannels A - 1) ! ?j"
    using j nA lenA by (simp add: mix_contribution_def double_zero)
  have fl1: "\<lfloor>double (real sr)\<rfloor> = int sr" unfolding dsr by simp
  have cB: "\<And>c. mix_contribution (real sr) c ?j (B', 1, 1 / 2) =
       1 / 4 * channelData B ! min c (numberOfChannels B - 1) ! (sr div 2)"
  proof -
    fix c
    let ?c = "min c (numberOfChannels B - 1)"
    have c: "?c < numberOfChannels B" using nB by auto
    have k: "int ?j - int sr = int (sr div 2)" using j by linarith
    have "channelData B' ! ?c = map (\<lambda>x. x * (1 / 2)) (channelData B ! ?c)"
      using c nB by (simp add: B'_def)
    moreover have "sr div 2 < 2 * sr" using sr(1) by auto
    ultimately show "mix_contribution (real sr) c ?j (B', 1, 1 / 2) =
       1 / 4 * channelData B ! ?c ! (sr div 2)"
      using lenB [OF c] j(3) by (simp add: mix_contribution_def B'_def fl1 k)
  qed
  have run: "processAudioClips_mixed platform this [a, b] =
      mixAudioBuffers this ?bs"
    by (simp add: processAudioClips_mixed_def bufs)
  have n3: "nat (3 * int sr) = 3 * sr" by (simp add: nat_mult_distrib)
  show ?thesis
    unfolding run mixAudioBuffers_closed [OF ctx h2 h3 h4] M
    using j(1) by (simp add: sr fl n3 cA cB) (simp add: B'_def)
qed


text \<open>The scenario at 8000 Hz with constant sources: \<open>a\<close> is 1/4 throughout, \<open>b\<close> is 1/2
  throughout. The mixed sample at 1.5 s (frame 12000) is 3/8; the value the claim
  gives is \<open>1/4 + 1/2 * 1/2 = 1/2\<close>.\<close>

theorem processAudioClips_volume_twice_witness:
  "\<exists>mixed.
     processAudioClips_mixed
       \<lparr>ffmpegLoad = None, ffmpegRun = (\<lambda>job. Inl (Error ''not used'')),
        decodeAudioData = (\<lambda>f. if name f = ''a.wav''
           then Inr \<lparr>numberOfChannels = 1, blength = 16000, sampleRate = 8000,
                     channelData = [replicate 16000 (1 / 4)]\<rparr>
           else Inr \<lparr>numberOfChannels = 1, blength = 16000, sampleRate = 8000,
                     channelData = [replicate 16000 (1 / 2)]\<rparr>),
        renderLowPass = (\<lambda>b f. Inr b), renderHighPass = (\<lambda>b f. Inr b),
        renderReverb = (\<lambda>b t d. Inr b)\<rparr>
       \<lparr>audioContext = Some Running\<rparr>
       [\<lparr>clip_id = ''A'', kind = AudioClip, clip_file = File ''a.wav'' [], clip_duration = 2,
         startTime = 0, endTime = 2, trimStart = 0, trimEnd = 2, volume = 1, track = 1,
         effects = []\<rparr>,
        \<lparr>clip_id = ''B'', kind = AudioClip, clip_file = File ''b.wav'' [], clip_duration = 2,
         startTime = 1, endTime = 3, trimStart = 0, trimEnd = 2, volume = 1 / 2, track = 1,
         effects = []\<rparr>] = Inr mixed \<and>
     blength mixed = 24000 \<and> numberOfChannels mixed = 1 \<and>
     channelData mixed ! 0 ! 12000 = 3 / 8 \<and>
     channelData mixed ! 0 ! 12000 \<noteq> 1 / 4 + 1 / 2 * (1 / 2)"
proof -
  let ?A = "\<lparr>numberOfChannels = 1, blength = 16000, sampleRate = 8000,
                     channelData = [replicate 16000 (1 / 4 :: real)]\<rparr>"
  let ?B = "\<lparr>numberOfChannels = 1, blength = 16000, sampleRate = 8000,
                     channelData = [replicate 16000 (1 / 2 :: real)]\<rparr>"
  let ?platform = "\<lparr>ffmpegLoad = None, ffmpegRun = (\<lambda>job. Inl (Error ''not used'')),
        decodeAudioData = (\<lambda>f. if name f = ''a.wav'' then Inr ?A else Inr ?B),
        renderLowPass = (\<lambda>b f. Inr b), renderHighPass = (\<lambda>b f. Inr b),
        renderReverb = (\<lambda>b t d. Inr b)\<rparr>"
  let ?p = "\<lparr>audioContext = Some Running\<rparr>"
  let ?a = "\<lparr>clip_id = ''A'', kind = AudioClip, clip_file = File ''a.wav'' [], clip_duration = 2,
         startTime = 0, endTime = 2, trimStart = 0, trimEnd = 2, volume = 1, track = 1,
         effects = []\<rparr>"
  let ?b = "\<lparr>clip_id = ''B'', kind = AudioClip, clip_file = File ''b.wav'' [], clip_duration = 2,
         startTime = 1, endTime = 3, trimStart = 0, trimEnd = 2, volume = 1 / 2, track = 1,
         effects = []\<rparr>"
  have wf: "wf_buffer ?A" "wf_buffer ?B" by (simp_all add: wf_buffer_def)
  obtain mixed where m: "processAudioClips_mixed ?platform ?p [?a, ?b] = Inr mixed"
      "blength mixed = 3 * 8000"
      "numberOfChannels mixed = max (numberOfChannels ?A) (numberOfChannels ?B)"
      "\<forall>c < numberOfChannels mixed.
              channelData mixed ! c ! (3 * 8000 div 2) =
                channelData ?A ! min c (numberOfChannels ?A - 1) ! (3 * 8000 div 2) +
                1 / 4 * channelData ?B ! min c (numberOfChannels ?B - 1) ! (8000 div 2)"
    using processAudioClips_volume_twice [of ?p ?platform ?a ?A ?b ?B 8000, OF _ _ _ wf]
    by auto
  have n: "numberOfChannels mixed = 1" using m(3) by simp
  have "channelData mixed ! 0 ! 12000 = 3 / 8"
    using m(4) unfolding n by simp
  then show ?thesis using m(1,2) n by auto
qed




section \<open>Bytes and fields\<close>

lemma ToInteger_of_nat [simp]: "ToInteger (real n) = int n"
  by (simp add: ToInteger_def)

lemma ToInteger_numeral [simp]: "ToInteger (numeral k) = numeral k"
  by (simp add: ToInteger_def)

lemma ToInteger_one [simp]: "ToInteger 1 = 1"
  by (simp add: ToInteger_def)

lemma ToInteger_zero [simp]: "ToInteger 0 = 0"
  by (simp add: ToInteger_def)

lemma length_le_bytes [simp]: "length (le_bytes k n) = k"
  by (induction k arbitrary: n) simp_all

lemma le_value_le_bytes: "le_value (le_bytes k n) = n mod 256 ^ k"
proof (induction k arbitrary: n)
  case 0
  then show ?case by simp
next
  case (Suc k)
  have "uint (word_of_int n :: byte) = n mod 256"
    by (simp add: uint_word_of_int)
  moreover have "n mod (256 * 256 ^ k) = 256 * (n div 256 mod 256 ^ k) + n mod 256"
    by (rule zmod_zmult2_eq) simp
  ultimately show ?case using Suc [of "n div 256"] by simp
qed

lemma store_bytes_append:
  "length bs \<le> length R \<Longrightarrow>
   store_bytes (A @ R) (length A) bs = A @ bs @ drop (length bs) R"
proof (induction bs arbitrary: A R)
  case Nil
  then show ?case by simp
next
  case (Cons x bs)
  then obtain r R' where R: "R = r # R'" by (cases R) auto
  have "store_bytes ((A @ [x]) @ R') (length (A @ [x])) bs = (A @ [x]) @ bs @ drop (length bs) R'"
    using Cons.prems R by (intro Cons.IH) simp
  then show ?case by (simp add: R)
qed

lemma setBytes_append:
  assumes "length A = off" and "width \<le> length R"
  shows "setBytes width (A @ R) off v True = Inr (A @ le_bytes width (ToInteger v) @ drop width R)"
  using assms store_bytes_append [of "le_bytes width (ToInteger v)" R A]
  by (auto simp: setBytes_def)

lemma writeString_append:
  assumes A: "length A = off" and n: "length str \<le> length R"
  shows "writeString (A @ R) off str =
           Inr (A @ map (\<lambda>c. word_of_int (int (of_char c))) str @ drop (length str) R)"
proof -
  let ?f = "\<lambda>c :: char. (word_of_int (int (of_char c)) :: byte)"
  have "\<exists>s'. forEach [0..<length str]
          (\<lambda>i view. setUint8 view (off + i) (real (of_char (str ! i)))) (A @ R) = Inr s' \<and>
          s' = A @ map ?f (take (length str) str) @ drop (length str) R"
  proof (rule forEach_upt_invariant [where I = "\<lambda>i s. s = A @ map ?f (take i str) @ drop i R"])
    show "A @ R = A @ map ?f (take 0 str) @ drop 0 R" by simp
  next
    fix i s assume i: "i < length str" and s: "s = A @ map ?f (take i str) @ drop i R"
    have "setUint8 ((A @ map ?f (take i str)) @ drop i R) (off + i) (real (of_char (str ! i))) =
        Inr ((A @ map ?f (take i str)) @ le_bytes 1 (ToInteger (real (of_char (str ! i)))) @
             drop 1 (drop i R))"
      unfolding setUint8_def using A i n by (intro setBytes_append) simp_all
    then show "\<exists>s'. setUint8 s (off + i) (real (of_char (str ! i))) = Inr s' \<and>
        s' = A @ map ?f (take (Suc i) str) @ drop (Suc i) R"
      using i by (simp add: s take_Suc_conv_app_nth)
  qed
  then show ?thesis by (simp add: writeString_def)
qed




section \<open>The header writes\<close>

lemma length_ascii [simp]: "length (ascii str) = length str"
  by (simp add: ascii_def)

lemma header_field:
  assumes "length P = off" and "w \<le> m"
  shows "setBytes w (P @ replicate m 0) off v True =
           Inr ((P @ le_bytes w (ToInteger v)) @ replicate (m - w) 0)"
  using setBytes_append [OF assms(1), of w "replicate m 0" v] assms(2) by simp

lemma header_tag:
  assumes "length P = off" and "length str \<le> m"
  shows "writeString (P @ replicate m 0) off str = Inr ((P @ ascii str) @ replicate (m - length str) 0)"
  using writeString_append [OF assms(1), of str "replicate m 0"] assms(2)
  by (simp add: ascii_def)

lemma header_tag_first:
  assumes "length str \<le> m"
  shows "writeString (replicate m 0) 0 str = Inr (ascii str @ replicate (m - length str) 0)"
  using header_tag [of "[]" 0 str m] assms by simp

lemma exportToWav_header_run:
  "forEach (exportToWav_header channels rate len) (\<lambda>write view. write view)
     (replicate (44 + len * channels * 2) 0) =
   Inr (wav_header_bytes channels rate len @ replicate (len * channels * 2) 0)"
proof -
  have t: "ToInteger (36 + real len * real channels * 2) = 36 + int len * int channels * 2"
      "ToInteger (real channels * 2) = int channels * 2"
      "ToInteger (real len * real channels * 2) = int len * int channels * 2"
    using ToInteger_of_nat [of "36 + len * channels * 2"] ToInteger_of_nat [of "channels * 2"]
      ToInteger_of_nat [of "len * channels * 2"]
    by simp_all
  show ?thesis
    unfolding exportToWav_header_def wav_header_bytes_def setUint32_def setUint16_def
    by (simp add: header_field header_tag header_tag_first del: append_assoc) (simp add: t)
qed


section \<open>The sample writes\<close>

lemma length_wav_sample_bytes [simp]: "length (wav_sample_bytes b k) = 2"
  by (simp add: wav_sample_bytes_def)

lemma length_concat_samples [simp]:
  "length (concat (map (wav_sample_bytes b) [0..<k])) = 2 * k"
  by (induction k) simp_all

lemma exportToWav_sample_step:
  assumes wf: "wf_buffer b" and H: "length H = 44"
    and i: "i < blength b" and c: "c < numberOfChannels b"
  shows "exportToWav_sample b i c
           (H @ concat (map (wav_sample_bytes b) [0..<i * numberOfChannels b + c]) @
              replicate (2 * (blength b * numberOfChannels b - (i * numberOfChannels b + c))) 0,
            44 + 2 * (i * numberOfChannels b + c)) =
         Inr (H @ concat (map (wav_sample_bytes b) [0..<Suc (i * numberOfChannels b + c)]) @
              replicate (2 * (blength b * numberOfChannels b - Suc (i * numberOfChannels b + c))) 0,
            44 + 2 * Suc (i * numberOfChannels b + c))"
proof -
  let ?C = "numberOfChannels b" and ?N = "blength b"
  let ?k = "i * ?C + c"
  let ?done = "concat (map (wav_sample_bytes b) [0..<?k])"
  let ?x = "pcm16 (f32_get (channelData b ! c) (int i))"
  have "?k < i * ?C + ?C" using c by simp
  also have "\<dots> = Suc i * ?C" by simp
  also have "\<dots> \<le> ?N * ?C" using i by (intro mult_le_mono1) simp
  finally have k: "?k < ?N * ?C" .
  have room: "2 \<le> 2 * (?N * ?C - ?k)" using k by simp
  have sb: "wav_sample_bytes b ?k = le_bytes 2 (ToInteger ?x)"
    using c by (simp add: wav_sample_bytes_def)
  have "setBytes 2 ((H @ ?done) @ replicate (2 * (?N * ?C - ?k)) 0) (44 + 2 * ?k) ?x True =
      Inr (((H @ ?done) @ le_bytes 2 (ToInteger ?x)) @ replicate (2 * (?N * ?C - ?k) - 2) 0)"
    using H room by (intro header_field) simp_all
  moreover have "2 * (?N * ?C - ?k) - 2 = 2 * (?N * ?C - Suc ?k)" by simp
  ultimately have "setInt16 (H @ ?done @ replicate (2 * (?N * ?C - ?k)) 0) (44 + 2 * ?k) ?x True =
      Inr (H @ concat (map (wav_sample_bytes b) [0..<Suc ?k]) @
           replicate (2 * (?N * ?C - Suc ?k)) 0)"
    by (simp add: setInt16_def sb)
  then show ?thesis
    using c by (simp add: exportToWav_sample_def getChannelData_def)
qed

lemma exportToWav_data_run:
  assumes wf: "wf_buffer b" and H: "length H = 44"
  shows "forEach [0..<blength b]
           (\<lambda>i. forEach [0..<numberOfChannels b] (exportToWav_sample b i))
           (H @ replicate (blength b * numberOfChannels b * 2) 0, 44) =
         Inr (H @ wav_data_bytes b, 44 + blength b * numberOfChannels b * 2)"
proof -
  let ?C = "numberOfChannels b" and ?N = "blength b"
  define st where "st = (\<lambda>k. (H @ concat (map (wav_sample_bytes b) [0..<k]) @
              replicate (2 * (?N * ?C - k)) (0 :: byte), 44 + 2 * k))"
  have inner: "forEach [0..<?C] (exportToWav_sample b i) (st (i * ?C)) = Inr (st (Suc i * ?C))"
    if i: "i < ?N" for i
  proof -
    have "\<exists>s'. forEach [0..<?C] (exportToWav_sample b i) (st (i * ?C)) = Inr s' \<and>
            s' = st (i * ?C + ?C)"
    proof (rule forEach_upt_invariant [where I = "\<lambda>c s. s = st (i * ?C + c)"])
      show "st (i * ?C) = st (i * ?C + 0)" by simp
    next
      fix c s assume "c < ?C" "s = st (i * ?C + c)"
      then show "\<exists>s'. exportToWav_sample b i c s = Inr s' \<and> s' = st (i * ?C + Suc c)"
        using exportToWav_sample_step [OF wf H i, of c] by (simp add: st_def)
    qed
    then show ?thesis by (auto simp: add.commute)
  qed
  have "\<exists>s'. forEach [0..<?N] (\<lambda>i. forEach [0..<?C] (exportToWav_sample b i)) (st 0) = Inr s' \<and>
          s' = st (?N * ?C)"
  proof (rule forEach_upt_invariant [where I = "\<lambda>i s. s = st (i * ?C)"])
    show "st 0 = st (0 * ?C)" by simp
  next
    fix i s assume "i < ?N" "s = st (i * ?C)"
    then show "\<exists>s'. forEach [0..<?C] (exportToWav_sample b i) s = Inr s' \<and> s' = st (Suc i * ?C)"
      using inner by simp
  qed
  moreover have "st 0 = (H @ replicate (?N * ?C * 2) 0, 44)"
    by (simp add: st_def mult.commute)
  moreover have "st (?N * ?C) = (H @ wav_data_bytes b, 44 + ?N * ?C * 2)"
    by (simp add: st_def wav_data_bytes_def)
  ultimately show ?thesis by simp
qed

lemma length_wav_header_bytes [simp]: "length (wav_header_bytes channels rate len) = 44"
  by (simp add: wav_header_bytes_def)

lemma exportToWav_closed:
  assumes "wf_buffer b"
  shows "exportToWav b =
           Inr (wav_header_bytes (numberOfChannels b) (sampleRate b) (blength b) @ wav_data_bytes b)"
  by (simp add: exportToWav_def Let_def exportToWav_header_run
      exportToWav_data_run [OF assms])



section \<open>Reading the fields back\<close>

lemma getTag_ascii: "map (\<lambda>b. char_of (unat b)) (ascii str) = str"
proof -
  have "char_of (unat (word_of_int (int (of_char x)) :: byte)) = x" for x :: char
  proof -
    have "(of_char x :: nat) < 256" by (rule nat_of_char_less_256)
    then have "unat (word_of_nat (of_char x) :: byte) = of_char x"
      by (simp add: unat_of_nat)
    then have "unat (word_of_int (int (of_char x)) :: byte) = of_char x"
      by simp
    then show ?thesis by simp
  qed
  then show ?thesis by (simp add: ascii_def comp_def)
qed

lemma le_value_field:
  assumes "0 \<le> n" and "n < 256 ^ k"
  shows "le_value (le_bytes k n) = n"
  using assms by (simp add: le_value_le_bytes)

lemma sample_block:
  assumes "k < n"
  shows "take 2 (drop (2 * k) (concat (map (wav_sample_bytes b) [0..<n]))) = wav_sample_bytes b k"
proof -
  have "[0..<n] = [0..<k] @ [k..<n]"
    using upt_add_eq_append [of 0 k "n - k"] assms by simp
  moreover have "[k..<n] = k # [Suc k..<n]"
    using assms by (rule upt_conv_Cons)
  ultimately have "[0..<n] = [0..<k] @ k # [Suc k..<n]" by simp
  then have "concat (map (wav_sample_bytes b) [0..<n]) =
      concat (map (wav_sample_bytes b) [0..<k]) @ wav_sample_bytes b k @
      concat (map (wav_sample_bytes b) [Suc k..<n])"
    by simp
  then show ?thesis by simp
qed

lemma pcm16_range:
  "- 32768 \<le> ToInteger (pcm16 (Some x))" "ToInteger (pcm16 (Some x)) \<le> 32767"
proof -
  let ?s = "max (- 1) (min 1 x)"
  have s: "- 1 \<le> ?s" "?s \<le> 1" by simp_all
  show "- 32768 \<le> ToInteger (pcm16 (Some x))"
  proof (cases "?s < 0")
    case True
    have "- 32768 \<le> ?s * 32768" using s(1) by linarith
    then have "- 32768 \<le> \<lceil>?s * 32768\<rceil>" by (simp add: le_ceiling_iff)
    then show ?thesis using True by (simp add: pcm16_def ToInteger_def Let_def)
  next
    case False
    then have "0 \<le> ?s * 32767" by simp
    then have "0 \<le> \<lfloor>?s * 32767\<rfloor>" by simp
    then show ?thesis using False by (simp add: pcm16_def ToInteger_def Let_def)
  qed
  show "ToInteger (pcm16 (Some x)) \<le> 32767"
  proof (cases "?s < 0")
    case True
    then have "?s * 32768 \<le> 0" by simp
    then have "\<lceil>?s * 32768\<rceil> \<le> 0" by (simp add: ceiling_le_iff)
    then show ?thesis using True by (simp add: pcm16_def ToInteger_def Let_def)
  next
    case False
    have "?s * 32767 \<le> 32767" using s(2) by linarith
    then have "\<lfloor>?s * 32767\<rfloor> \<le> 32767" by (simp add: floor_le_iff)
    then show ?thesis using False by (simp add: pcm16_def ToInteger_def Let_def)
  qed
qed

lemma getInt16_le_bytes:
  assumes "- 32768 \<le> v" and "v \<le> 32767"
  shows "(let u = le_value (le_bytes 2 v) in if u \<ge> 32768 then u - 65536 else u) = v"
proof -
  have u: "le_value (le_bytes 2 v) = v mod 65536" by (simp add: le_value_le_bytes)
  show ?thesis
  proof (cases "0 \<le> v")
    case True
    then have "v mod 65536 = v" using assms by simp
    then show ?thesis using assms by (simp add: u Let_def)
  next
    case False
    then have "0 \<le> v + 65536" "v + 65536 < 65536" using assms by simp_all
    then have "(v + 65536) mod 65536 = v + 65536" by (rule mod_pos_pos_trivial)
    moreover have "(v + 65536) mod 65536 = v mod 65536" by simp
    ultimately have "v mod 65536 = v + 65536" by simp
    then show ?thesis using False assms by (simp add: u Let_def)
  qed
qed


lemma silence_bytes:
  assumes "\<And>k. k < n \<Longrightarrow> wav_sample_bytes b k = [0, 0]"
  shows "concat (map (wav_sample_bytes b) [0..<n]) = replicate (n * 2) 0"
  using assms
proof (induction n)
  case 0
  then show ?case by simp
next
  case (Suc n)
  have "replicate (Suc n * 2) (0 :: byte) = replicate (n * 2) 0 @ replicate 2 0"
    by (simp add: replicate_add [symmetric])
  also have "replicate 2 (0 :: byte) = [0, 0]" by (simp add: numeral_2_eq_2)
  finally show ?case using Suc by simp
qed

lemma header_fields:
  fixes channels len :: nat and rate :: real and data :: "byte list"
  defines "wav \<equiv> wav_header_bytes channels rate len @ data"
  shows "getTag wav 0 = ''RIFF''" and "getTag wav 8 = ''WAVE''" and "getTag wav 12 = ''fmt ''"
    and "getTag wav 36 = ''data''"
    and "getUint32 wav 4 = le_value (le_bytes 4 (int (36 + len * channels * 2)))"
    and "getUint32 wav 16 = le_value (le_bytes 4 16)"
    and "getUint16 wav 20 = le_value (le_bytes 2 1)"
    and "getUint16 wav 22 = le_value (le_bytes 2 (int channels))"
    and "getUint32 wav 24 = le_value (le_bytes 4 (ToInteger rate))"
    and "getUint32 wav 28 = le_value (le_bytes 4 (ToInteger (rate * real channels * 2)))"
    and "getUint16 wav 32 = le_value (le_bytes 2 (int (channels * 2)))"
    and "getUint16 wav 34 = le_value (le_bytes 2 16)"
    and "getUint32 wav 40 = le_value (le_bytes 4 (int (len * channels * 2)))"
  unfolding wav_def wav_header_bytes_def getTag_def getUint32_def getUint16_def
  by (simp_all add: getTag_ascii)



text \<open>
  C1. For a well-formed buffer of \<open>C\<close> channels and \<open>N\<close> frames at rate \<open>R\<close> whose sizes fit
  the header's fields, \<open>exportToWav\<close> returns \<open>44 + N * C * 2\<close> bytes: the tags
  \<^verbatim>\<open>RIFF\<close>, \<^verbatim>\<open>WAVE\<close>, \<^verbatim>\<open>fmt \<close> and \<^verbatim>\<open>data\<close> at offsets 0, 8, 12 and 36, and the little-endian
  fields RIFF size \<open>36 + N * C * 2\<close>, fmt size 16, format 1, channels \<open>C\<close>, rate \<open>R\<close>,
  byte rate \<open>R * C * 2\<close>, block align \<open>C * 2\<close>, bits 16, data size \<open>N * C * 2\<close> (a rate
  that is not integral is truncated); the sample of frame \<open>i\<close> and channel \<open>c\<close> stands at
  offset \<open>44 + 2 * (i * C + c)\<close> as a signed little-endian 16-bit integer, the sample
  clamped to \<open>[-1, 1]\<close> and multiplied by 32768 if negative and by 32767 otherwise,
  truncated towards zero. For a buffer of silence every data byte is 0.
\<close>

theorem exportToWav_layout:
  assumes wf: "wf_buffer b"
    and fits: "36 + blength b * numberOfChannels b * 2 < 2 ^ 32"
      "numberOfChannels b * 2 < 2 ^ 16"
      "sampleRate b * real (numberOfChannels b) * 2 < 2 ^ 32"
  shows "\<exists>wav. exportToWav b = Inr wav \<and>
           length wav = 44 + blength b * numberOfChannels b * 2 \<and>
           getTag wav 0 = ''RIFF'' \<and>
           getUint32 wav 4 = int (36 + blength b * numberOfChannels b * 2) \<and>
           getTag wav 8 = ''WAVE'' \<and> getTag wav 12 = ''fmt '' \<and>
           getUint32 wav 16 = 16 \<and> getUint16 wav 20 = 1 \<and>
           getUint16 wav 22 = int (numberOfChannels b) \<and>
           getUint32 wav 24 = \<lfloor>sampleRate b\<rfloor> \<and>
           getUint32 wav 28 = \<lfloor>sampleRate b * real (numberOfChannels b) * 2\<rfloor> \<and>
           getUint16 wav 32 = int (numberOfChannels b * 2) \<and> getUint16 wav 34 = 16 \<and>
           getTag wav 36 = ''data'' \<and>
           getUint32 wav 40 = int (blength b * numberOfChannels b * 2) \<and>
           (\<forall>i < blength b. \<forall>c < numberOfChannels b.
              getInt16 wav (44 + 2 * (i * numberOfChannels b + c)) =
                ToInteger (let sample = max (- 1) (min 1 (channelData b ! c ! i))
                           in if sample < 0 then sample * 32768 else sample * 32767)) \<and>
           ((\<forall>c < numberOfChannels b. \<forall>i < blength b. channelData b ! c ! i = 0) \<longrightarrow>
              drop 44 wav = replicate (blength b * numberOfChannels b * 2) 0)"
proof -
  let ?C = "numberOfChannels b" and ?N = "blength b" and ?R = "sampleRate b"
  define wav where "wav = wav_header_bytes ?C ?R ?N @ wav_data_bytes b"
  have run: "exportToWav b = Inr wav"
    unfolding wav_def using wf by (rule exportToWav_closed)
  have Cpos: "0 < ?C" and Rpos: "0 < ?R"
    and lens: "\<And>c. c < ?C \<Longrightarrow> length (channelData b ! c) = ?N"
    using wf by (simp_all add: wf_buffer_def list_all_length)
  have len: "length wav = 44 + ?N * ?C * 2"
    by (simp add: wav_def wav_data_bytes_def)
  note hf = header_fields [of ?C ?R ?N "wav_data_bytes b", folded wav_def]
  have sizes: "?N * ?C * 2 < 2 ^ 32" "int (?N * ?C * 2) < 256 ^ 4"
      "int (36 + ?N * ?C * 2) < 256 ^ 4" "int ?C < 256 ^ 2" "int (?C * 2) < 256 ^ 2"
    using fits(1,2) by (simp_all del: of_nat_mult of_nat_add)
  have rate2: "?R \<le> ?R * real ?C * 2"
  proof -
    have "1 \<le> real ?C * 2" using Cpos by simp
    then have "?R * 1 \<le> ?R * (real ?C * 2)" using Rpos by (intro mult_left_mono) simp_all
    then show ?thesis by (simp add: mult.assoc)
  qed
  have nonneg: "0 \<le> ?R * real ?C * 2"
    using Rpos by (intro mult_nonneg_nonneg) simp_all
  have tr: "ToInteger ?R = \<lfloor>?R\<rfloor>" "ToInteger (?R * real ?C * 2) = \<lfloor>?R * real ?C * 2\<rfloor>"
  proof -
    have "\<not> ?R < 0" using Rpos by simp
    then show "ToInteger ?R = \<lfloor>?R\<rfloor>" unfolding ToInteger_def by (rule if_not_P)
    have "\<not> ?R * real ?C * 2 < 0" using nonneg by simp
    then show "ToInteger (?R * real ?C * 2) = \<lfloor>?R * real ?C * 2\<rfloor>"
      unfolding ToInteger_def by (rule if_not_P)
  qed
  have rfit: "0 \<le> \<lfloor>?R\<rfloor>" "\<lfloor>?R\<rfloor> < 256 ^ 4"
      "0 \<le> \<lfloor>?R * real ?C * 2\<rfloor>" "\<lfloor>?R * real ?C * 2\<rfloor> < 256 ^ 4"
  proof -
    have Rlt: "?R < 2 ^ 32" using rate2 fits(3) by (rule order_le_less_trans)
    show "0 \<le> \<lfloor>?R\<rfloor>" using Rpos by simp
    show "\<lfloor>?R\<rfloor> < 256 ^ 4" using Rlt by (simp add: floor_less_iff)
    show "0 \<le> \<lfloor>?R * real ?C * 2\<rfloor>" using nonneg by (simp only: zero_le_floor)
    show "\<lfloor>?R * real ?C * 2\<rfloor> < 256 ^ 4"
      using fits(3) by (simp add: floor_less_iff)
  qed
  have f4: "getUint32 wav 4 = int (36 + ?N * ?C * 2)"
    unfolding hf using sizes(3) by (intro le_value_field) simp_all
  have f16: "getUint32 wav 16 = 16"
    unfolding hf by (intro le_value_field) simp_all
  have f20: "getUint16 wav 20 = 1"
    unfolding hf by (intro le_value_field) simp_all
  have f22: "getUint16 wav 22 = int ?C"
    unfolding hf using sizes(4) by (intro le_value_field) simp_all
  have f24: "getUint32 wav 24 = \<lfloor>?R\<rfloor>"
    unfolding hf tr using rfit by (intro le_value_field)
  have f28: "getUint32 wav 28 = \<lfloor>?R * real ?C * 2\<rfloor>"
    unfolding hf tr using rfit by (intro le_value_field)
  have f32: "getUint16 wav 32 = int (?C * 2)"
    unfolding hf using sizes(5) by (intro le_value_field) simp_all
  have f34: "getUint16 wav 34 = 16"
    unfolding hf by (intro le_value_field) simp_all
  have f40: "getUint32 wav 40 = int (?N * ?C * 2)"
    unfolding hf using sizes(2) by (intro le_value_field) simp_all
  have block: "wav_sample_bytes b (i * ?C + c) =
      le_bytes 2 (ToInteger (pcm16 (Some (channelData b ! c ! i))))"
    if "i < ?N" "c < ?C" for i c
    using that lens by (simp add: wav_sample_bytes_def f32_get_def)
  have samples: "\<forall>i < ?N. \<forall>c < ?C.
      getInt16 wav (44 + 2 * (i * ?C + c)) =
        ToInteger (let sample = max (- 1) (min 1 (channelData b ! c ! i))
                   in if sample < 0 then sample * 32768 else sample * 32767)"
  proof (intro allI impI)
    fix i c assume i: "i < ?N" and c: "c < ?C"
    have "i * ?C + c < i * ?C + ?C" using c by simp
    also have "\<dots> = Suc i * ?C" by simp
    also have "\<dots> \<le> ?N * ?C" using i by (intro mult_le_mono1) simp
    finally have k: "i * ?C + c < ?N * ?C" .
    have "take 2 (drop (44 + 2 * (i * ?C + c)) wav) = wav_sample_bytes b (i * ?C + c)"
      using sample_block [OF k, of b] by (simp add: wav_def wav_data_bytes_def)
    then have "getInt16 wav (44 + 2 * (i * ?C + c)) =
        ToInteger (pcm16 (Some (channelData b ! c ! i)))"
      using getInt16_le_bytes [OF pcm16_range [of "channelData b ! c ! i"]]
      by (simp add: getInt16_def getUint16_def block [OF i c])
    then show "getInt16 wav (44 + 2 * (i * ?C + c)) =
        ToInteger (let sample = max (- 1) (min 1 (channelData b ! c ! i))
                   in if sample < 0 then sample * 32768 else sample * 32767)"
      by (simp add: pcm16_def)
  qed
  have silence: "(\<forall>c < ?C. \<forall>i < ?N. channelData b ! c ! i = 0) \<longrightarrow>
      drop 44 wav = replicate (?N * ?C * 2) 0"
  proof
    assume zero: "\<forall>c < ?C. \<forall>i < ?N. channelData b ! c ! i = 0"
    have "wav_sample_bytes b k = [0, 0]" if k: "k < ?N * ?C" for k
    proof -
      have kc: "k mod ?C < ?C" using Cpos by simp
      have ki: "k div ?C < ?N" using k Cpos by (simp add: less_mult_imp_div_less)
      have "k = (k div ?C) * ?C + k mod ?C" by simp
      then have "wav_sample_bytes b k =
          le_bytes 2 (ToInteger (pcm16 (Some (channelData b ! (k mod ?C) ! (k div ?C)))))"
        using block [OF ki kc] by simp
      then show ?thesis
        using zero kc ki by (simp add: pcm16_def numeral_2_eq_2)
    qed
    then have "wav_data_bytes b = replicate (?N * ?C * 2) 0"
      unfolding wav_data_bytes_def by (rule silence_bytes)
    then show "drop 44 wav = replicate (?N * ?C * 2) 0"
      by (simp add: wav_def)
  qed
  show ?thesis
    using run len hf(1-4) f4 f16 f20 f22 f24 f28 f32 f34 f40 samples silence
    by (intro exI [of _ wav] conjI)
qed


theorem exportToWav_layout_witness:
  "wf_buffer \<lparr>numberOfChannels = 2, blength = 2, sampleRate = 48000,
              channelData = [[1/2, - 3/2], [- 1/4, 2]]\<rparr> \<and>
   (\<exists>wav. exportToWav \<lparr>numberOfChannels = 2, blength = 2, sampleRate = 48000,
                         channelData = [[1/2, - 3/2], [- 1/4, 2]]\<rparr> = Inr wav \<and>
      length wav = 52 \<and> getTag wav 0 = ''RIFF'' \<and> getUint32 wav 4 = 44 \<and>
      getUint16 wav 22 = 2 \<and> getUint32 wav 24 = 48000 \<and> getUint32 wav 28 = 192000 \<and>
      getUint16 wav 32 = 4 \<and> getUint32 wav 40 = 8 \<and>
      getInt16 wav 44 = 16383 \<and> getInt16 wav 46 = - 8192 \<and>
      getInt16 wav 48 = - 32768 \<and> getInt16 wav 50 = 32767) \<and>
   (\<exists>wav. exportToWav \<lparr>numberOfChannels = 2, blength = 2, sampleRate = 48000,
                         channelData = [[0, 0], [0, 0]]\<rparr> = Inr wav \<and>
      length wav = 52 \<and> drop 44 wav = replicate 8 0)"
proof -
  let ?b = "\<lparr>numberOfChannels = 2, blength = 2, sampleRate = 48000,
              channelData = [[1/2, - 3/2], [- 1/4, 2 :: real]]\<rparr>"
  let ?z = "\<lparr>numberOfChannels = 2, blength = 2, sampleRate = 48000,
              channelData = [[0, 0], [0, 0 :: real]]\<rparr>"
  have wf: "wf_buffer ?b" "wf_buffer ?z" by (simp_all add: wf_buffer_def)
  have fits: "36 + blength ?b * numberOfChannels ?b * 2 < 2 ^ 32"
      "numberOfChannels ?b * 2 < 2 ^ 16"
      "sampleRate ?b * real (numberOfChannels ?b) * 2 < 2 ^ 32"
      "36 + blength ?z * numberOfChannels ?z * 2 < 2 ^ 32"
      "numberOfChannels ?z * 2 < 2 ^ 16"
      "sampleRate ?z * real (numberOfChannels ?z) * 2 < 2 ^ 32"
    by simp_all
  from exportToWav_layout [OF wf(1) fits(1-3)] obtain wav where W:
      "exportToWav ?b = Inr wav \<and>
           length wav = 44 + blength ?b * numberOfChannels ?b * 2 \<and>
           getTag wav 0 = ''RIFF'' \<and>
           getUint32 wav 4 = int (36 + blength ?b * numberOfChannels ?b * 2) \<and>
           getTag wav 8 = ''WAVE'' \<and> getTag wav 12 = ''fmt '' \<and>
           getUint32 wav 16 = 16 \<and> getUint16 wav 20 = 1 \<and>
           getUint16 wav 22 = int (numberOfChannels ?b) \<and>
           getUint32 wav 24 = \<lfloor>sampleRate ?b\<rfloor> \<and>
           getUint32 wav 28 = \<lfloor>sampleRate ?b * real (numberOfChannels ?b) * 2\<rfloor> \<and>
           getUint16 wav 32 = int (numberOfChannels ?b * 2) \<and> getUint16 wav 34 = 16 \<and>
           getTag wav 36 = ''data'' \<and>
           getUint32 wav 40 = int (blength ?b * numberOfChannels ?b * 2) \<and>
           (\<forall>i < blength ?b. \<forall>c < numberOfChannels ?b.
              getInt16 wav (44 + 2 * (i * numberOfChannels ?b + c)) =
                ToInteger (let sample = max (- 1) (min 1 (channelData ?b ! c ! i))
                           in if sample < 0 then sample * 32768 else sample * 32767)) \<and>
           ((\<forall>c < numberOfChannels ?b. \<forall>i < blength ?b. channelData ?b ! c ! i = 0) \<longrightarrow>
              drop 44 wav = replicate (blength ?b * numberOfChannels ?b * 2) 0)"
    by (rule exE)
  have wav: "exportToWav ?b = Inr wav" "length wav = 52"
      "getTag wav 0 = ''RIFF''" "getUint32 wav 4 = 44" "getUint16 wav 22 = 2"
      "getUint32 wav 24 = 48000" "getUint32 wav 28 = 192000" "getUint16 wav 32 = 4"
      "getUint32 wav 40 = 8"
    using W by simp_all
  have all: "\<forall>i < 2. \<forall>c < 2. getInt16 wav (44 + 2 * (i * 2 + c)) =
          ToInteger (let sample = max (- 1) (min 1 ([[1/2, - 3/2], [- 1/4, 2]] ! c ! i))
                     in if sample < 0 then sample * 32768 else sample * 32767)"
    using W by simp
  have s: "getInt16 wav 44 = 16383" "getInt16 wav 46 = - 8192"
      "getInt16 wav 48 = - 32768" "getInt16 wav 50 = 32767"
    using all [rule_format, of 0 0] all [rule_format, of 0 1]
      all [rule_format, of 1 0] all [rule_format, of 1 1]
    by (simp_all add: ToInteger_def)
  have first: "\<exists>wav. exportToWav ?b = Inr wav \<and>
      length wav = 52 \<and> getTag wav 0 = ''RIFF'' \<and> getUint32 wav 4 = 44 \<and>
      getUint16 wav 22 = 2 \<and> getUint32 wav 24 = 48000 \<and> getUint32 wav 28 = 192000 \<and>
      getUint16 wav 32 = 4 \<and> getUint32 wav 40 = 8 \<and>
      getInt16 wav 44 = 16383 \<and> getInt16 wav 46 = - 8192 \<and>
      getInt16 wav 48 = - 32768 \<and> getInt16 wav 50 = 32767"
    using wav s by (intro exI [of _ wav] conjI)
  from exportToWav_layout [OF wf(2) fits(4-6)] obtain zw where Z:
      "exportToWav ?z = Inr zw \<and>
           length zw = 44 + blength ?z * numberOfChannels ?z * 2 \<and>
           getTag zw 0 = ''RIFF'' \<and>
           getUint32 zw 4 = int (36 + blength ?z * numberOfChannels ?z * 2) \<and>
           getTag zw 8 = ''WAVE'' \<and> getTag zw 12 = ''fmt '' \<and>
           getUint32 zw 16 = 16 \<and> getUint16 zw 20 = 1 \<and>
           getUint16 zw 22 = int (numberOfChannels ?z) \<and>
           getUint32 zw 24 = \<lfloor>sampleRate ?z\<rfloor> \<and>
           getUint32 zw 28 = \<lfloor>sampleRate ?z * real (numberOfChannels ?z) * 2\<rfloor> \<and>
           getUint16 zw 32 = int (numberOfChannels ?z * 2) \<and> getUint16 zw 34 = 16 \<and>
           getTag zw 36 = ''data'' \<and>
           getUint32 zw 40 = int (blength ?z * numberOfChannels ?z * 2) \<and>
           (\<forall>i < blength ?z. \<forall>c < numberOfChannels ?z.
              getInt16 zw (44 + 2 * (i * numberOfChannels ?z + c)) =
                ToInteger (let sample = max (- 1) (min 1 (channelData ?z ! c ! i))
                           in if sample < 0 then sample * 32768 else sample * 32767)) \<and>
           ((\<forall>c < numberOfChannels ?z. \<forall>i < blength ?z. channelData ?z ! c ! i = 0) \<longrightarrow>
              drop 44 zw = replicate (blength ?z * numberOfChannels ?z * 2) 0)"
    by (rule exE)
  have zero: "\<forall>c < numberOfChannels ?z. \<forall>i < blength ?z. channelData ?z ! c ! i = 0"
    by (simp add: less_Suc_eq numeral_2_eq_2)
  have second: "\<exists>wav. exportToWav ?z = Inr wav \<and> length wav = 52 \<and>
      drop 44 wav = replicate 8 0"
    using Z zero by (intro exI [of _ zw]) simp
  show ?thesis
    using wf(1) first second by (intro conjI)
qed



section \<open>The clips drawn at a time\<close>

text \<open>
  C8. At every time \<open>t\<close> the clips selected for drawing are exactly the clips (with their
  multiplicity) of the tracks with \<open>visible = true\<close> that satisfy
  \<open>startTime \<le> t < endTime\<close>; they come in ascending order of \<open>startTime\<close>, and clips
  with the same \<open>startTime\<close> keep the order of the track list (a track earlier in the
  list first) and, within a track, the order of its clip list. No selected clip has
  \<open>t < startTime\<close> or \<open>t \<ge> endTime\<close>.
\<close>

theorem visibleClips_active:
  "mset (visibleClips tline t) =
     mset (filter (\<lambda>clip. startTime clip \<le> t \<and> t < endTime clip)
             (concat (map clips (filter visible (tracks tline))))) \<and>
   sorted (map startTime (visibleClips tline t)) \<and>
   (\<forall>k. filter (\<lambda>clip. startTime clip = k) (visibleClips tline t) =
        filter (\<lambda>clip. startTime clip = k)
          (concat (map (\<lambda>tr. filter (\<lambda>clip. startTime clip \<le> t \<and> t < endTime clip) (clips tr))
                     (filter visible (tracks tline))))) \<and>
   (\<forall>clip \<in> set (visibleClips tline t). \<not> (t < startTime clip \<or> t \<ge> endTime clip))"
proof -
  let ?active = "\<lambda>clip. startTime clip \<le> t \<and> t < endTime clip"
  let ?cands = "filter ?active (concat (map clips (filter visible (tracks tline))))"
  have def: "visibleClips tline t = sort_key startTime ?cands"
    by (simp add: visibleClips_def conj_commute)
  have flat: "?cands = concat (map (\<lambda>tr. filter ?active (clips tr)) (filter visible (tracks tline)))"
    by (simp add: filter_concat comp_def)
  have 1: "mset (visibleClips tline t) = mset ?cands"
    unfolding def by simp
  have 2: "sorted (map startTime (visibleClips tline t))"
    unfolding def by (rule sorted_sort_key)
  have 3: "\<forall>k. filter (\<lambda>clip. startTime clip = k) (visibleClips tline t) =
        filter (\<lambda>clip. startTime clip = k)
          (concat (map (\<lambda>tr. filter ?active (clips tr)) (filter visible (tracks tline))))"
    unfolding def flat [symmetric] by (simp add: sort_key_stable)
  have 4: "\<forall>clip \<in> set (visibleClips tline t). \<not> (t < startTime clip \<or> t \<ge> endTime clip)"
    unfolding def by auto
  show ?thesis using 1 2 3 4 by (intro conjI)
qed


theorem visibleClips_active_witness:
  "visibleClips
     \<lparr>duration = 10,
      tracks = [track_of ''v1'' VideoTrack True [clip_at ''a'' 0 5, clip_at ''b'' 2 4],
                track_of ''v2'' VideoTrack False [clip_at ''c'' 0 10],
                track_of ''t1'' TextTrack True
                  [clip_at ''d'' 0 3, clip_at ''e'' 5 8, clip_at ''f'' 1 (5/2)]]\<rparr>
     (5/2) =
   [clip_at ''a'' 0 5, clip_at ''d'' 0 3, clip_at ''b'' 2 4]"
  using visibleClips_active
    [of "\<lparr>duration = 10,
      tracks = [track_of ''v1'' VideoTrack True [clip_at ''a'' 0 5, clip_at ''b'' 2 4],
                track_of ''v2'' VideoTrack False [clip_at ''c'' 0 10],
                track_of ''t1'' TextTrack True
                  [clip_at ''d'' 0 3, clip_at ''e'' 5 8, clip_at ''f'' 1 (5/2)]]\<rparr>" "5/2"]
  by (simp add: visibleClips_def clip_at_def track_of_def)



section \<open>The clip actions of the store\<close>

lemma update_first_nth:
  "i < length xs \<Longrightarrow> P (xs ! i) \<Longrightarrow> \<forall>j < i. \<not> P (xs ! j) \<Longrightarrow>
   update_first P f xs = xs[i := f (xs ! i)]"
proof (induction xs arbitrary: i)
  case Nil
  then show ?case by simp
next
  case (Cons x xs)
  show ?case
  proof (cases i)
    case 0
    then show ?thesis using Cons.prems by simp
  next
    case (Suc i')
    have "\<not> P x" using Cons.prems(3) Suc by auto
    moreover have "update_first P f xs = xs[i' := f (xs ! i')]"
      using Cons.prems Suc by (intro Cons.IH) auto
    ultimately show ?thesis using Suc by simp
  qed
qed

lemma find_first_index:
  "i < length xs \<Longrightarrow> P (xs ! i) \<Longrightarrow> \<forall>j < i. \<not> P (xs ! j) \<Longrightarrow> List.find P xs = Some (xs ! i)"
proof (induction xs arbitrary: i)
  case Nil
  then show ?case by simp
next
  case (Cons x xs)
  show ?case
  proof (cases i)
    case 0
    then show ?thesis using Cons.prems by simp
  next
    case (Suc i')
    have "\<not> P x" using Cons.prems(3) Suc by auto
    moreover have "List.find P xs = Some (xs ! i')"
      using Cons.prems Suc by (intro Cons.IH) auto
    ultimately show ?thesis using Suc by simp
  qed
qed

text \<open>
  C9 (as amended). The clip actions of the store validate nothing and raise nothing.
  \<open>addClip\<close> appends the given clip, whatever its times, to the first track with the given
  id and raises the timeline's duration to the clip's end time if that is larger; without
  such a track it leaves the state as it is. \<open>updateClip\<close> overwrites, on every track, the
  properties present in the update on the first clip with the given id, whatever the new
  values. \<open>removeClip\<close> takes a clip id only: it deletes the clips with that id from every
  track and from the selection.
\<close>

theorem clip_actions_unvalidated:
  "(\<forall>i < length (tracks (timeline s)).
      track_id (tracks (timeline s) ! i) = trackId \<longrightarrow>
      (\<forall>j < i. track_id (tracks (timeline s) ! j) \<noteq> trackId) \<longrightarrow>
      addClip trackId clip s =
        s\<lparr>timeline :=
            \<lparr>duration = max (duration (timeline s)) (endTime clip),
             tracks = (tracks (timeline s))
               [i := (tracks (timeline s) ! i)
                       \<lparr>clips := clips (tracks (timeline s) ! i) @ [clip]\<rparr>]\<rparr>\<rparr>) \<and>
   ((\<forall>t \<in> set (tracks (timeline s)). track_id t \<noteq> trackId) \<longrightarrow> addClip trackId clip s = s) \<and>
   length (tracks (timeline (updateClip clipId updates s))) = length (tracks (timeline s)) \<and>
   (\<forall>i < length (tracks (timeline s)). \<forall>j < length (clips (tracks (timeline s) ! i)).
      clip_id (clips (tracks (timeline s) ! i) ! j) = clipId \<longrightarrow>
      (\<forall>k < j. clip_id (clips (tracks (timeline s) ! i) ! k) \<noteq> clipId) \<longrightarrow>
      clips (tracks (timeline (updateClip clipId updates s)) ! i) =
        (clips (tracks (timeline s) ! i))
          [j := Object_assign (clips (tracks (timeline s) ! i) ! j) updates]) \<and>
   (\<forall>c v. new_startTime updates = Some v \<longrightarrow> startTime (Object_assign c updates) = v) \<and>
   (\<forall>c v. new_endTime updates = Some v \<longrightarrow> endTime (Object_assign c updates) = v) \<and>
   (\<forall>c v. new_trimStart updates = Some v \<longrightarrow> trimStart (Object_assign c updates) = v) \<and>
   (\<forall>c v. new_trimEnd updates = Some v \<longrightarrow> trimEnd (Object_assign c updates) = v) \<and>
   map clips (tracks (timeline (removeClip clipId s))) =
     map (\<lambda>t. filter (\<lambda>c. clip_id c \<noteq> clipId) (clips t)) (tracks (timeline s)) \<and>
   selectedClips (removeClip clipId s) = filter (\<lambda>i. i \<noteq> clipId) (selectedClips s)"
proof -
  let ?T = "tracks (timeline s)"
  have add1: "\<forall>i < length ?T. track_id (?T ! i) = trackId \<longrightarrow>
      (\<forall>j < i. track_id (?T ! j) \<noteq> trackId) \<longrightarrow>
      addClip trackId clip s =
        s\<lparr>timeline := \<lparr>duration = max (duration (timeline s)) (endTime clip),
             tracks = ?T [i := (?T ! i) \<lparr>clips := clips (?T ! i) @ [clip]\<rparr>]\<rparr>\<rparr>"
  proof (intro allI impI)
    fix i assume i: "i < length ?T" "track_id (?T ! i) = trackId"
      "\<forall>j < i. track_id (?T ! j) \<noteq> trackId"
    have f: "List.find (\<lambda>t. track_id t = trackId) ?T = Some (?T ! i)"
      using i by (intro find_first_index) simp_all
    have u: "update_first (\<lambda>t. track_id t = trackId) (\<lambda>t. t\<lparr>clips := clips t @ [clip]\<rparr>) ?T =
        ?T [i := (?T ! i) \<lparr>clips := clips (?T ! i) @ [clip]\<rparr>]"
      using i by (intro update_first_nth) simp_all
    show "addClip trackId clip s =
        s\<lparr>timeline := \<lparr>duration = max (duration (timeline s)) (endTime clip),
             tracks = ?T [i := (?T ! i) \<lparr>clips := clips (?T ! i) @ [clip]\<rparr>]\<rparr>\<rparr>"
      by (simp add: addClip_def f u Let_def max_def)
  qed
  have add2: "(\<forall>t \<in> set ?T. track_id t \<noteq> trackId) \<longrightarrow> addClip trackId clip s = s"
  proof
    assume "\<forall>t \<in> set ?T. track_id t \<noteq> trackId"
    then have "List.find (\<lambda>t. track_id t = trackId) ?T = None"
      by (simp add: find_None_iff)
    then show "addClip trackId clip s = s" by (simp add: addClip_def)
  qed
  have upd0: "length (tracks (timeline (updateClip clipId updates s))) = length ?T"
    by (simp add: updateClip_def)
  have upd1: "\<forall>i < length ?T. \<forall>j < length (clips (?T ! i)).
      clip_id (clips (?T ! i) ! j) = clipId \<longrightarrow>
      (\<forall>k < j. clip_id (clips (?T ! i) ! k) \<noteq> clipId) \<longrightarrow>
      clips (tracks (timeline (updateClip clipId updates s)) ! i) =
        (clips (?T ! i)) [j := Object_assign (clips (?T ! i) ! j) updates]"
  proof (intro allI impI)
    fix i j assume i: "i < length ?T" and j: "j < length (clips (?T ! i))"
      "clip_id (clips (?T ! i) ! j) = clipId" "\<forall>k < j. clip_id (clips (?T ! i) ! k) \<noteq> clipId"
    have "update_first (\<lambda>c. clip_id c = clipId) (\<lambda>c. Object_assign c updates) (clips (?T ! i)) =
        (clips (?T ! i)) [j := Object_assign (clips (?T ! i) ! j) updates]"
      using j by (intro update_first_nth) simp_all
    then show "clips (tracks (timeline (updateClip clipId updates s)) ! i) =
        (clips (?T ! i)) [j := Object_assign (clips (?T ! i) ! j) updates]"
      using i by (simp add: updateClip_def)
  qed
  have asg: "\<forall>c v. new_startTime updates = Some v \<longrightarrow> startTime (Object_assign c updates) = v"
      "\<forall>c v. new_endTime updates = Some v \<longrightarrow> endTime (Object_assign c updates) = v"
      "\<forall>c v. new_trimStart updates = Some v \<longrightarrow> trimStart (Object_assign c updates) = v"
      "\<forall>c v. new_trimEnd updates = Some v \<longrightarrow> trimEnd (Object_assign c updates) = v"
    by (simp_all add: Object_assign_def assign_def)
  have rem: "map clips (tracks (timeline (removeClip clipId s))) =
      map (\<lambda>t. filter (\<lambda>c. clip_id c \<noteq> clipId) (clips t)) ?T"
      "selectedClips (removeClip clipId s) = filter (\<lambda>i. i \<noteq> clipId) (selectedClips s)"
    by (simp_all add: removeClip_def comp_def)
  show ?thesis
    using add1 add2 upd0 upd1 asg rem by (intro conjI)
qed


theorem clip_actions_unvalidated_witness:
  "addClip ''video-track-1'' (clip_at ''x'' 5 2) defaultState =
     \<lparr>timeline =
        \<lparr>duration = 2,
         tracks = [track_of ''video-track-1'' VideoTrack True [clip_at ''x'' 5 2],
                   track_of ''audio-track-1'' AudioTrack True []]\<rparr>,
      selectedClips = []\<rparr> \<and>
   addClip ''no-such-track'' (clip_at ''x'' 5 2) defaultState = defaultState \<and>
   endTime (Object_assign (clip_at ''a'' 0 5) (no_updates\<lparr>new_endTime := Some (- 1)\<rparr>)) = - 1"
proof -
  note T = clip_actions_unvalidated
    [of defaultState "''video-track-1''" "clip_at ''x'' 5 2" "''a''"
        "no_updates\<lparr>new_endTime := Some (- 1)\<rparr>"]
  note N = clip_actions_unvalidated
    [of defaultState "''no-such-track''" "clip_at ''x'' 5 2" "''a''" no_updates]
  have 1: "addClip ''video-track-1'' (clip_at ''x'' 5 2) defaultState =
     \<lparr>timeline =
        \<lparr>duration = 2,
         tracks = [track_of ''video-track-1'' VideoTrack True [clip_at ''x'' 5 2],
                   track_of ''audio-track-1'' AudioTrack True []]\<rparr>,
      selectedClips = []\<rparr>"
    using T [THEN conjunct1, rule_format, of 0]
    by (simp add: defaultState_def track_of_def clip_at_def)
  have 2: "addClip ''no-such-track'' (clip_at ''x'' 5 2) defaultState = defaultState"
    using N [THEN conjunct2, THEN conjunct1] by (simp add: defaultState_def)
  have 3: "endTime (Object_assign (clip_at ''a'' 0 5) (no_updates\<lparr>new_endTime := Some (- 1)\<rparr>)) = - 1"
    using T by simp
  show ?thesis using 1 2 3 by (intro conjI)
qed

text \<open>The claim as stated fails: a clip that ends before it starts (and whose trim range is
  empty) is added to the track, and an update that moves a clip's end before its start is
  applied; the state changes and nothing is raised.\<close>

theorem clip_actions_accept_invalid_counterexample:
  "\<not> startTime (clip_at ''x'' 5 2) < endTime (clip_at ''x'' 5 2) \<and>
   \<not> trimStart (clip_at ''x'' 5 2) < trimEnd (clip_at ''x'' 5 2) \<and>
   addClip ''video-track-1'' (clip_at ''x'' 5 2) defaultState \<noteq> defaultState \<and>
   map clips (tracks (timeline (addClip ''video-track-1'' (clip_at ''x'' 5 2) defaultState))) =
     [[clip_at ''x'' 5 2], []] \<and>
   map clips (tracks (timeline
     (updateClip ''a'' (no_updates\<lparr>new_endTime := Some (- 1)\<rparr>)
        (addClip ''video-track-1'' (clip_at ''a'' 0 5) defaultState)))) =
     [[(clip_at ''a'' 0 5)\<lparr>endTime := - 1\<rparr>], []]"
  by (simp add: addClip_def updateClip_def defaultState_def clip_at_def no_updates_def
      Object_assign_def assign_def)



section \<open>Exporting a timeline without clips\<close>

text \<open>
  C10 (as amended). When the export finds neither a clip with a file on a visible video
  track nor one on an un-muted audio track, it fails, and the only service operations
  invoked are those of the initialisation that comes first: loading the transcoder (if it
  is not loaded), resuming a suspended audio context, registering the progress callback.
  If loading the transcoder fails the export fails with that error; otherwise, without an
  audio context, it fails with \<^verbatim>\<open>'Audio context not supported'\<close>; otherwise it raises
  \<^verbatim>\<open>'No clips to export'\<close>. No transcoder job is run, no audio is processed and nothing is
  downloaded.
\<close>

theorem processTimelineExport_no_clips:
  assumes "exportVideoClips tline = []" and "exportAudioClips tline = []"
  shows "\<exists>e env' init.
           processTimelineExport platform projectName tline exportSettings env = (Inl e, env') \<and>
           calls env' = calls env @ init \<and>
           set init \<subseteq> {FFmpegLoad, AudioContextResume, FFmpegOnProgress} \<and>
           (\<forall>x. \<not> isLoaded env \<and> ffmpegLoad platform = Some x \<longrightarrow> e = x) \<and>
           ((isLoaded env \<or> ffmpegLoad platform = None) \<and>
              audioContext (audioProcessor env) = None \<longrightarrow>
              e = Error ''Audio context not supported'') \<and>
           ((isLoaded env \<or> ffmpegLoad platform = None) \<and>
              audioContext (audioProcessor env) \<noteq> None \<longrightarrow>
              e = Error ''No clips to export'')"
proof (cases "\<not> isLoaded env \<and> ffmpegLoad platform \<noteq> None")
  case True
  then obtain x where x: "ffmpegLoad platform = Some x" by auto
  have "processTimelineExport platform projectName tline exportSettings env =
      (Inl x, env\<lparr>calls := calls env @ [FFmpegLoad]\<rparr>)"
    using True x by (simp add: processTimelineExport_def videoProcessor_initialize_def)
  then show ?thesis using True x by simp
next
  case False
  define env1 where "env1 = (if isLoaded env then env
      else env\<lparr>isLoaded := True, calls := calls env @ [FFmpegLoad]\<rparr>)"
  have v: "videoProcessor_initialize platform env = (Inr (), env1)"
    using False by (auto simp: videoProcessor_initialize_def env1_def)
  have c1: "\<exists>init. calls env1 = calls env @ init \<and> set init \<subseteq> {FFmpegLoad}"
    by (simp add: env1_def)
  have a1: "audioProcessor env1 = audioProcessor env" by (simp add: env1_def)
  show ?thesis
  proof (cases "audioContext (audioProcessor env)")
    case None
    have "processTimelineExport platform projectName tline exportSettings env =
        (Inl (Error ''Audio context not supported''), env1)"
      using None by (simp add: processTimelineExport_def v audioProcessor_initialize_def a1)
    then show ?thesis using False None c1 by auto
  next
    case (Some st)
    define env2 where "env2 = (if st = Suspended
        then env1\<lparr>audioProcessor := \<lparr>audioContext = Some Running\<rparr>,
                  calls := calls env1 @ [AudioContextResume]\<rparr>
        else env1)"
    have a: "audioProcessor_initialize env1 = (Inr (), env2)"
      using Some by (cases st) (simp_all add: audioProcessor_initialize_def a1 env2_def)
    have c2: "\<exists>init. calls env2 = calls env @ init \<and> set init \<subseteq> {FFmpegLoad, AudioContextResume}"
      using c1 by (auto simp: env2_def)
    have "processTimelineExport platform projectName tline exportSettings env =
        (Inl (Error ''No clips to export''), env2\<lparr>calls := calls env2 @ [FFmpegOnProgress]\<rparr>)"
      using assms by (simp add: processTimelineExport_def v a Let_def)
    then show ?thesis using False Some c2 by auto
  qed
qed


theorem processTimelineExport_no_clips_witness:
  "exportVideoClips
     \<lparr>duration = 5,
        tracks = [track_of ''video-track-1'' VideoTrack False [clip_at ''a'' 0 5],
                  track_of ''audio-track-1'' AudioTrack True []]\<rparr> = [] \<and>
   exportAudioClips
     \<lparr>duration = 5,
        tracks = [track_of ''video-track-1'' VideoTrack False [clip_at ''a'' 0 5],
                  track_of ''audio-track-1'' AudioTrack True []]\<rparr> = [] \<and>
   processTimelineExport
     \<lparr>ffmpegLoad = None, ffmpegRun = (\<lambda>job. Inr []),
        decodeAudioData = (\<lambda>f. Inl (DOMException ''EncodingError'')),
        renderLowPass = (\<lambda>b f. Inr b), renderHighPass = (\<lambda>b f. Inr b),
        renderReverb = (\<lambda>b t d. Inr b)\<rparr>
     ''Untitled Project''
     \<lparr>duration = 5,
        tracks = [track_of ''video-track-1'' VideoTrack False [clip_at ''a'' 0 5],
                  track_of ''audio-track-1'' AudioTrack True []]\<rparr>
     \<lparr>format = ''mp4'', quality = ''high''\<rparr>
     \<lparr>isLoaded = False, audioProcessor = \<lparr>audioContext = Some Suspended\<rparr>, calls = []\<rparr> =
   (Inl (Error ''No clips to export''),
    \<lparr>isLoaded = True, audioProcessor = \<lparr>audioContext = Some Running\<rparr>,
     calls = [FFmpegLoad, AudioContextResume, FFmpegOnProgress]\<rparr>)"
proof -
  let ?tl = "\<lparr>duration = 5,
        tracks = [track_of ''video-track-1'' VideoTrack False [clip_at ''a'' 0 5],
                  track_of ''audio-track-1'' AudioTrack True []]\<rparr>"
  let ?platform = "\<lparr>ffmpegLoad = None, ffmpegRun = (\<lambda>job. Inr []),
        decodeAudioData = (\<lambda>f. Inl (DOMException ''EncodingError'')),
        renderLowPass = (\<lambda>b f. Inr b), renderHighPass = (\<lambda>b f. Inr b),
        renderReverb = (\<lambda>b t d. Inr b)\<rparr>"
  let ?env = "\<lparr>isLoaded = False, audioProcessor = \<lparr>audioContext = Some Suspended\<rparr>, calls = []\<rparr>"
  have h: "exportVideoClips ?tl = []" "exportAudioClips ?tl = []"
    by (simp_all add: exportVideoClips_def exportAudioClips_def track_of_def)
  obtain e env' where r: "processTimelineExport ?platform ''Untitled Project'' ?tl
        \<lparr>format = ''mp4'', quality = ''high''\<rparr> ?env = (Inl e, env')"
      "e = Error ''No clips to export''"
    using processTimelineExport_no_clips [OF h, of ?platform "''Untitled Project''"
        "\<lparr>format = ''mp4'', quality = ''high''\<rparr>" ?env]
    by auto
  have "env' = \<lparr>isLoaded = True, audioProcessor = \<lparr>audioContext = Some Running\<rparr>,
     calls = [FFmpegLoad, AudioContextResume, FFmpegOnProgress]\<rparr>"
    using r(1) h
    by (simp add: processTimelineExport_def videoProcessor_initialize_def
        audioProcessor_initialize_def)
  then show ?thesis using h r by simp
qed

text \<open>The claim as stated fails where no audio context is available: the export of the
  empty initial timeline loads the transcoder and then fails with the audio processor's
  error, not with \<^verbatim>\<open>'No clips to export'\<close>.\<close>

theorem processTimelineExport_no_audio_context_counterexample:
  "exportVideoClips (timeline defaultState) = [] \<and>
   exportAudioClips (timeline defaultState) = [] \<and>
   processTimelineExport
     \<lparr>ffmpegLoad = None, ffmpegRun = (\<lambda>job. Inr []),
        decodeAudioData = (\<lambda>f. Inl (DOMException ''EncodingError'')),
        renderLowPass = (\<lambda>b f. Inr b), renderHighPass = (\<lambda>b f. Inr b),
        renderReverb = (\<lambda>b t d. Inr b)\<rparr>
     ''Untitled Project'' (timeline defaultState) \<lparr>format = ''mp4'', quality = ''high''\<rparr>
     \<lparr>isLoaded = False, audioProcessor = \<lparr>audioContext = None\<rparr>, calls = []\<rparr> =
   (Inl (Error ''Audio context not supported''),
    \<lparr>isLoaded = True, audioProcessor = \<lparr>audioContext = None\<rparr>, calls = [FFmpegLoad]\<rparr>) \<and>
   Error ''Audio context not supported'' \<noteq> Error ''No clips to export''"
  by (simp add: processTimelineExport_def videoProcessor_initialize_def
      audioProcessor_initialize_def exportVideoClips_def exportAudioClips_def defaultState_def)

end
